theory Spec2Isabelle
  imports Main "HOL-Library.AList"
begin

section \<open>Sharding stage-1 V2 (split param) support of the unified checkpoint\<close>

text \<open>
  A shallow embedding of \<^verbatim>\<open>paddlenlp/trainer/unified_checkpoint/sharding_split_param_utils.py\<close>.
  Python dictionaries are association lists with distinct keys, in insertion order:
  \<open>d[k]\<close> is \<open>map_of d k\<close> (a missing key raises \<open>KeyError\<close>), \<open>d[k] = v\<close> is
  \<open>AList.update k v d\<close>, \<open>d.pop(k)\<close> is \<open>AList.delete k d\<close> and \<open>list(d.keys())\<close> is
  \<open>map fst d\<close>. Python integers are \<open>int\<close>. Every raise of the source is an \<open>Inl\<close> of
  the result; a receive that no message answers blocks for ever, which is the value
  \<open>Inl Blocked\<close>.
\<close>

subsection \<open>Errors, tensors and dictionaries\<close>

datatype error = KeyError | IndexError | TypeError | ValueError | Blocked | IOError

datatype dtype = Float32 | Float16 | BFloat16

text \<open>
  A tensor is its elements in row-major order, its shape, its element type and its
  \<open>name\<close> attribute. The elements stay abstract: only \<open>paddle.zeros\<close> needs a value of
  them, the \<open>0\<close> of the element type.
\<close>

record 'a tensor =
  tdata :: "'a list"
  tshape :: "int list"
  tdtype :: dtype
  tname :: string

type_synonym 'a state_dict = "(string \<times> 'a tensor) list"

definition numel :: "'a tensor \<Rightarrow> int" where
  "numel t = int (length (tdata t))"

text \<open>
  \<open>t.reshape(shape)\<close> for the shape of a parameter (no \<open>-1\<close> or \<open>0\<close> placeholder):
  it raises unless the shape holds as many elements as the tensor.
\<close>

definition reshape :: "'a tensor \<Rightarrow> int list \<Rightarrow> error + 'a tensor" where
  "reshape t shape =
     (if prod_list shape = numel t then Inr (t\<lparr>tshape := shape\<rparr>) else Inl ValueError)"

text \<open>\<open>t.reshape([-1])\<close>: the same elements as a 1-D tensor.\<close>

definition flatten :: "'a tensor \<Rightarrow> 'a tensor" where
  "flatten t = t\<lparr>tshape := [numel t]\<rparr>"


text \<open>A \<open>for\<close> loop over a list whose body may raise: the first error ends the loop.\<close>

fun for_each :: "('k \<Rightarrow> 's \<Rightarrow> error + 's) \<Rightarrow> 'k list \<Rightarrow> 's \<Rightarrow> error + 's" where
  "for_each body [] s = Inr s"
| "for_each body (k # ks) s =
     (case body k s of Inl err \<Rightarrow> Inl err | Inr s' \<Rightarrow> for_each body ks s')"

subsection \<open>The slice catalog of a rank\<close>

text \<open>
  One entry of \<open>buffer._sharding_param_grad_view\<close>: the local range
  \<open>[_param_begin, _param_end)\<close>, the parameter's shape (its \<open>numel()\<close> is the product
  of the shape), its offset \<open>_index\<close> in the buffer and its \<open>_padded_size\<close>.
\<close>

record grad_view =
  param_begin :: int
  param_end :: int
  param_shape :: "int list"
  index :: int
  padded_size :: int

type_synonym comm_buffer = "(string \<times> grad_view) list"

text \<open>
  \<open>param_slice_info\<close> maps a parameter name to its \<open>(begin, end)\<close> and, in the same
  dictionary, the key \<open>"global_rank"\<close> to the rank.
\<close>

datatype slice_entry = Slice int int | Rank nat

type_synonym slice_info = "(string \<times> slice_entry) list"

type_synonym shape_info = "(string \<times> (int list \<times> int \<times> int \<times> int)) list"

definition buffer_keys :: "comm_buffer list \<Rightarrow> (string \<times> grad_view) list" where
  "buffer_keys comm_buffer_list = concat comm_buffer_list"

text \<open>Lines 129-141 of \<open>gather_splited_param_for_optimizer\<close>.\<close>

definition build_param_slice_info :: "nat \<Rightarrow> comm_buffer list \<Rightarrow> slice_info" where
  "build_param_slice_info global_rank comm_buffer_list =
     AList.update ''global_rank'' (Rank global_rank)
       (fold (\<lambda>(key, v). AList.update key (Slice (param_begin v) (param_end v)))
          (buffer_keys comm_buffer_list) [])"

definition build_param_shape_info :: "comm_buffer list \<Rightarrow> shape_info" where
  "build_param_shape_info comm_buffer_list =
     fold (\<lambda>(key, v). AList.update key
             (param_shape v, prod_list (param_shape v), index v, padded_size v))
       (buffer_keys comm_buffer_list) []"

subsection \<open>Classification of the optimizer state (lines 153-166)\<close>

text \<open>
  The three branches of the loop body, named as the source's comments name them:
  \<open># full tensor\<close>, \<open># empty tensor\<close>, \<open># partial tensor\<close>.
\<close>

datatype slice_class = Full | Empty | Partial

definition classify_slice :: "int \<Rightarrow> int \<Rightarrow> int \<Rightarrow> slice_class" where
  "classify_slice pbegin pend n =
     (if pend - pbegin = n then Full else if pend \<le> pbegin then Empty else Partial)"

text \<open>
  One turn of the loop over \<open>list(optim_state_dict.keys())\<close>, on the state dictionary and
  \<open>partial_tensor_list\<close>. \<open>generate_base_static_name\<close> is defined outside this file and
  is a parameter.
\<close>

definition classify_key ::
  "(string \<Rightarrow> string \<times> string) \<Rightarrow> slice_info \<Rightarrow> shape_info \<Rightarrow> string \<Rightarrow>
     'a state_dict \<times> string list \<Rightarrow> error + ('a state_dict \<times> string list)" where
  "classify_key generate_base_static_name param_slice_info param_shape_info key st =
     (let optim_state_dict = fst st; partial_tensor_list = snd st;
          static_name = fst (generate_base_static_name key)
      in if static_name \<in> fst ` set param_slice_info then
           (case map_of optim_state_dict key of
              None \<Rightarrow> Inl KeyError
            | Some t \<Rightarrow>
                if numel t = 1 then Inr st
                else (case map_of param_slice_info static_name of
                        None \<Rightarrow> Inl KeyError
                      | Some (Rank r) \<Rightarrow> Inl TypeError
                      | Some (Slice pbegin pend) \<Rightarrow>
                          (case map_of param_shape_info static_name of
                             None \<Rightarrow> Inl KeyError
                           | Some (shape, n, _, _) \<Rightarrow>
                               (case classify_slice pbegin pend n of
                                  Full \<Rightarrow>
                                    (case reshape t shape of
                                       Inl err \<Rightarrow> Inl err
                                     | Inr t' \<Rightarrow>
                                         Inr (AList.update key t' optim_state_dict,
                                              partial_tensor_list))
                                | Empty \<Rightarrow> Inr st
                                | Partial \<Rightarrow>
                                    Inr (optim_state_dict,
                                         partial_tensor_list @ [static_name])))))
         else Inr st)"

definition classify ::
  "(string \<Rightarrow> string \<times> string) \<Rightarrow> slice_info \<Rightarrow> shape_info \<Rightarrow> 'a state_dict \<Rightarrow>
     error + ('a state_dict \<times> string list)" where
  "classify generate_base_static_name param_slice_info param_shape_info optim_state_dict =
     for_each (classify_key generate_base_static_name param_slice_info param_shape_info)
       (map fst optim_state_dict) (optim_state_dict, [])"

subsection \<open>Send and receive tables (lines 168-177)\<close>

type_synonym send_plan = "(nat \<times> int \<times> int) list"

text \<open>The inner loop over \<open>param_slice_info_list\<close>, the catalogs the all-gather returned.\<close>

fun sharding_ranklist :: "string \<Rightarrow> slice_info list \<Rightarrow> error + send_plan" where
  "sharding_ranklist key [] = Inr []"
| "sharding_ranklist key (slice_info # rest) =
     (case map_of slice_info key of
        None \<Rightarrow> Inl KeyError
      | Some (Rank r) \<Rightarrow> Inl TypeError
      | Some (Slice pbegin pend) \<Rightarrow>
          if pend > pbegin then
            (case map_of slice_info ''global_rank'' of
               None \<Rightarrow> Inl KeyError
             | Some (Slice b e) \<Rightarrow> Inl TypeError
             | Some (Rank r) \<Rightarrow>
                 (case sharding_ranklist key rest of
                    Inl err \<Rightarrow> Inl err
                  | Inr l \<Rightarrow> Inr ((r, pbegin, pend) # l)))
          else sharding_ranklist key rest)"

definition build_tables_key ::
  "slice_info list \<Rightarrow> string \<Rightarrow> (string \<times> send_plan) list \<times> (string \<times> nat) list \<Rightarrow>
     error + ((string \<times> send_plan) list \<times> (string \<times> nat) list)" where
  "build_tables_key param_slice_info_list key tables =
     (case sharding_ranklist key param_slice_info_list of
        Inl err \<Rightarrow> Inl err
      | Inr ranklist \<Rightarrow>
          (case ranklist of
             [] \<Rightarrow> Inl IndexError
           | (r, _, _) # _ \<Rightarrow>
               Inr (AList.update key ranklist (fst tables), AList.update key r (snd tables))))"

definition build_tables ::
  "slice_info list \<Rightarrow> string list \<Rightarrow>
     error + ((string \<times> send_plan) list \<times> (string \<times> nat) list)" where
  "build_tables param_slice_info_list partial_tensor_list =
     for_each (build_tables_key param_slice_info_list) partial_tensor_list ([], [])"

subsection \<open>Tensor operations of the merge and of the split\<close>

text \<open>
  A bound of a Python slice, against a dimension of length \<open>n\<close>: a negative bound counts
  from the end, and both are clamped to \<open>[0, n]\<close>.
\<close>

definition slice_bound :: "int \<Rightarrow> int \<Rightarrow> nat" where
  "slice_bound n i = (if i < 0 then nat (max 0 (i + n)) else nat (min i n))"

text \<open>\<open>t[a:b]\<close>, a slice along the first axis; a 0-D tensor cannot be sliced.\<close>

definition slice_rows :: "'a tensor \<Rightarrow> int \<Rightarrow> int \<Rightarrow> error + 'a tensor" where
  "slice_rows t a b =
     (case tshape t of
        [] \<Rightarrow> Inl IndexError
      | d # ds \<Rightarrow>
          (let lo = slice_bound d a; hi = slice_bound d b; row = nat (prod_list ds)
           in Inr (t\<lparr>tdata := drop (lo * row) (take (hi * row) (tdata t)),
                     tshape := int (hi - lo) # ds\<rparr>)))"

text \<open>
  \<open>paddle.concat(ts, axis=0)\<close>: the tensors agree on every axis but the first. The
  generated name of a new tensor is not modelled: the result keeps the first one's.
\<close>

definition concat0 :: "'a tensor list \<Rightarrow> error + 'a tensor" where
  "concat0 ts =
     (case ts of
        [] \<Rightarrow> Inl ValueError
      | t # rest \<Rightarrow>
          (case tshape t of
             [] \<Rightarrow> Inl ValueError
           | d # ds \<Rightarrow>
               if list_all (\<lambda>u. tshape u \<noteq> [] \<and> tl (tshape u) = ds) rest then
                 Inr (t\<lparr>tdata := concat (map tdata ts),
                         tshape := sum_list (map (\<lambda>u. hd (tshape u)) ts) # ds\<rparr>)
               else Inl ValueError))"

definition zeros :: "int \<Rightarrow> dtype \<Rightarrow> ('a::zero) tensor" where
  "zeros k dt = \<lparr>tdata = replicate (nat k) 0, tshape = [k], tdtype = dt, tname = []\<rparr>"

subsection \<open>Point-to-point transport\<close>

text \<open>
  What a rank sees of \<open>dist.stream.send\<close> and \<open>dist.stream.recv\<close>: the messages that
  will reach it, each with its source rank, in the order they arrive, and the messages
  it has sent, each with its destination. A receive from a source takes that source's
  oldest message; with none it blocks.
\<close>

type_synonym 'a mailbox = "(nat \<times> 'a list) list"

record 'a rank_state =
  state_dict :: "'a state_dict"
  inbox :: "'a mailbox"
  outbox :: "'a mailbox"

fun take_msg :: "nat \<Rightarrow> 'a mailbox \<Rightarrow> ('a list \<times> 'a mailbox) option" where
  "take_msg src [] = None"
| "take_msg src ((s, payload) # ms) =
     (if s = src then Some (payload, ms)
      else (case take_msg src ms of
              None \<Rightarrow> None
            | Some (p, ms') \<Rightarrow> Some (p, (s, payload) # ms')))"

text \<open>
  Lines 94-95: \<open>paddle.empty(shape=[length], dtype)\<close> filled by the receive. The tensor
  has \<open>length\<close> elements whatever arrives; what a shorter message does not overwrite
  keeps the uninitialised content \<open>uninit\<close>.
\<close>

definition recv_tensor ::
  "'a \<Rightarrow> int \<Rightarrow> dtype \<Rightarrow> nat \<Rightarrow> 'a mailbox \<Rightarrow> error + ('a tensor \<times> 'a mailbox)" where
  "recv_tensor uninit len dt src box =
     (if len < 0 then Inl ValueError
      else (case take_msg src box of
              None \<Rightarrow> Inl Blocked
            | Some (payload, box') \<Rightarrow>
                Inr (\<lparr>tdata = take (nat len) (payload @ replicate (nat len) uninit),
                       tshape = [len], tdtype = dt, tname = []\<rparr>, box')))"

subsection \<open>\<open>merge_splited_param\<close>\<close>

text \<open>
  Lines 88-90 and 103-105: the local tensor, cut at the padding when the fragment runs
  into it.
\<close>

definition local_fragment :: "'a tensor \<Rightarrow> int \<Rightarrow> int \<Rightarrow> int \<Rightarrow> error + 'a tensor" where
  "local_fragment t pbegin padding_start padding_end =
     (if padding_start \<ge> padding_end then Inr t
      else slice_rows t 0 (padding_start - pbegin))"

text \<open>Line 93: the length of the tensor a fragment is received into.\<close>

definition fragment_length :: "int \<Rightarrow> int \<Rightarrow> int \<Rightarrow> int \<Rightarrow> int" where
  "fragment_length pbegin pend padding_start padding_end =
     (if padding_start \<ge> padding_end then pend - pbegin else padding_start - pbegin)"

text \<open>Lines 82-96, on the receiving rank: \<open>tmp_tensor_list\<close> and what is left to arrive.\<close>

fun recv_fragments ::
  "'a \<Rightarrow> nat \<Rightarrow> 'a tensor \<Rightarrow> int \<Rightarrow> int \<Rightarrow> send_plan \<Rightarrow> 'a mailbox \<Rightarrow>
     error + ('a tensor list \<times> 'a mailbox)" where
  "recv_fragments uninit recv_rank t base_padding_start base_padding_end [] box = Inr ([], box)"
| "recv_fragments uninit recv_rank t base_padding_start base_padding_end
     ((send_rank, pbegin, pend) # rest) box =
     (let padding_start = max pbegin base_padding_start;
          padding_end = min pend base_padding_end
      in if send_rank = recv_rank then
           (case local_fragment t pbegin padding_start padding_end of
              Inl err \<Rightarrow> Inl err
            | Inr tensor \<Rightarrow>
                (case recv_fragments uninit recv_rank t base_padding_start base_padding_end
                        rest box of
                   Inl err \<Rightarrow> Inl err
                 | Inr (l, box') \<Rightarrow> Inr (tensor # l, box')))
         else
           (case recv_tensor uninit (fragment_length pbegin pend padding_start padding_end)
                   (tdtype t) send_rank box of
              Inl err \<Rightarrow> Inl err
            | Inr (tmp_tensor, box1) \<Rightarrow>
                (case recv_fragments uninit recv_rank t base_padding_start base_padding_end
                        rest box1 of
                   Inl err \<Rightarrow> Inl err
                 | Inr (l, box') \<Rightarrow> Inr (tmp_tensor # l, box'))))"

text \<open>Lines 99-107, on any other rank: one turn of the loop over \<open>send_info\<close>.\<close>

definition send_fragment ::
  "string \<Rightarrow> nat \<Rightarrow> nat \<Rightarrow> int \<Rightarrow> int \<Rightarrow> nat \<times> int \<times> int \<Rightarrow>
     'a state_dict \<times> 'a mailbox \<Rightarrow> error + ('a state_dict \<times> 'a mailbox)" where
  "send_fragment key recv_rank global_rank base_padding_start base_padding_end frag st =
     (let send_rank = fst frag; pbegin = fst (snd frag); pend = snd (snd frag);
          padding_start = max pbegin base_padding_start;
          padding_end = min pend base_padding_end
      in if global_rank = send_rank then
           (case map_of (fst st) key of
              None \<Rightarrow> Inl KeyError
            | Some t \<Rightarrow>
                (case local_fragment t pbegin padding_start padding_end of
                   Inl err \<Rightarrow> Inl err
                 | Inr tensor \<Rightarrow>
                     Inr (AList.delete key (fst st), snd st @ [(recv_rank, tdata tensor)])))
         else Inr st)"

text \<open>One turn of the first loop (lines 65-107).\<close>

definition merge_key ::
  "(string \<Rightarrow> string \<times> string) \<Rightarrow> 'a \<Rightarrow> nat \<Rightarrow> string list \<Rightarrow> shape_info \<Rightarrow>
     (string \<times> send_plan) list \<Rightarrow> (string \<times> nat) list \<Rightarrow> bool \<Rightarrow> string \<Rightarrow>
     'a rank_state \<Rightarrow> error + 'a rank_state" where
  "merge_key generate_base_static_name uninit global_rank partial_tensor_list param_shape_info
     send_table recv_table is_master_weights key st =
     (case map_of (state_dict st) key of
        None \<Rightarrow> Inl KeyError
      | Some t \<Rightarrow>
          if numel t = 1 then Inr st
          else
            (let static_name =
                   (if is_master_weights then key else fst (generate_base_static_name key))
             in case map_of param_shape_info static_name of
                  None \<Rightarrow> Inl KeyError
                | Some (shape, n, idx, padded) \<Rightarrow>
                    if static_name \<notin> set partial_tensor_list then
                      (case reshape t shape of
                         Inl err \<Rightarrow> Inl err
                       | Inr t' \<Rightarrow> Inr (st\<lparr>state_dict := AList.update key t' (state_dict st)\<rparr>))
                    else
                      (case map_of recv_table static_name of
                         None \<Rightarrow> Inl KeyError
                       | Some recv_rank \<Rightarrow>
                           (case map_of send_table static_name of
                              None \<Rightarrow> Inl KeyError
                            | Some send_info \<Rightarrow>
                                (let base_padding_start = idx + n;
                                     base_padding_end = idx + padded
                                 in if global_rank = recv_rank then
                                      (case recv_fragments uninit recv_rank t base_padding_start
                                              base_padding_end send_info (inbox st) of
                                         Inl err \<Rightarrow> Inl err
                                       | Inr (tmp_tensor_list, box') \<Rightarrow>
                                           (case concat0 tmp_tensor_list of
                                              Inl err \<Rightarrow> Inl err
                                            | Inr c \<Rightarrow>
                                                (case reshape c shape of
                                                   Inl err \<Rightarrow> Inl err
                                                 | Inr m \<Rightarrow>
                                                     Inr (st\<lparr>state_dict :=
                                                                AList.update key m (state_dict st),
                                                              inbox := box'\<rparr>))))
                                    else
                                      (case for_each
                                              (send_fragment key recv_rank global_rank
                                                 base_padding_start base_padding_end)
                                              send_info (state_dict st, outbox st) of
                                         Inl err \<Rightarrow> Inl err
                                       | Inr (sd', out') \<Rightarrow>
                                           Inr (st\<lparr>state_dict := sd', outbox := out'\<rparr>)))))))"

text \<open>One turn of the second loop (lines 110-117), run when \<open>ckpt_quant_stage != "O0"\<close>.\<close>

definition drop_scalar_key ::
  "(string \<Rightarrow> string \<times> string) \<Rightarrow> nat \<Rightarrow> string list \<Rightarrow> (string \<times> send_plan) list \<Rightarrow>
     (string \<times> nat) list \<Rightarrow> bool \<Rightarrow> string \<Rightarrow> 'a state_dict \<Rightarrow> error + 'a state_dict" where
  "drop_scalar_key generate_base_static_name global_rank partial_tensor_list send_table
     recv_table is_master_weights key sd =
     (case map_of sd key of
        None \<Rightarrow> Inl KeyError
      | Some t \<Rightarrow>
          if numel t = 1 then
            (let static_name =
                   (if is_master_weights then key else fst (generate_base_static_name key))
             in if static_name \<in> set partial_tensor_list then
                  (case map_of recv_table static_name of
                     None \<Rightarrow> Inl KeyError
                   | Some recv_rank \<Rightarrow>
                       (case map_of send_table static_name of
                          None \<Rightarrow> Inl KeyError
                        | Some send_info \<Rightarrow>
                            if global_rank \<noteq> recv_rank then Inr (AList.delete key sd)
                            else Inr sd))
                else Inr sd)
          else Inr sd)"

text \<open>
  The function, on the rank \<open>global_rank\<close> (\<open>dist.get_rank()\<close>), with the mailboxes of the
  rank before and after.
\<close>

definition merge_splited_param ::
  "(string \<Rightarrow> string \<times> string) \<Rightarrow> 'a \<Rightarrow> nat \<Rightarrow> 'a rank_state \<Rightarrow> string list \<Rightarrow>
     shape_info \<Rightarrow> (string \<times> send_plan) list \<Rightarrow> (string \<times> nat) list \<Rightarrow> bool \<Rightarrow> string \<Rightarrow>
     error + 'a rank_state" where
  "merge_splited_param generate_base_static_name uninit global_rank st partial_tensor_list
     param_shape_info send_table recv_table is_master_weights ckpt_quant_stage =
     (case for_each
             (merge_key generate_base_static_name uninit global_rank partial_tensor_list
                param_shape_info send_table recv_table is_master_weights)
             (map fst (state_dict st)) st of
        Inl err \<Rightarrow> Inl err
      | Inr st1 \<Rightarrow>
          if ckpt_quant_stage \<noteq> ''O0'' then
            (case for_each
                    (drop_scalar_key generate_base_static_name global_rank partial_tensor_list
                       send_table recv_table is_master_weights)
                    (map fst (state_dict st1)) (state_dict st1) of
               Inl err \<Rightarrow> Inl err
             | Inr sd' \<Rightarrow> Inr (st1\<lparr>state_dict := sd'\<rparr>))
          else Inr st1)"

subsection \<open>Reading the tables\<close>

text \<open>
  The ranks whose slice of \<open>key\<close> is not empty, each with its slice, in the order of the
  gathered catalogs: what the tables are compared with.
\<close>

definition holders :: "string \<Rightarrow> slice_info list \<Rightarrow> send_plan" where
  "holders key param_slice_info_list =
     concat (map (\<lambda>slice_info.
                    (case (map_of slice_info key, map_of slice_info ''global_rank'') of
                       (Some (Slice pbegin pend), Some (Rank r)) \<Rightarrow>
                         if pend > pbegin then [(r, pbegin, pend)] else []
                     | _ \<Rightarrow> []))
               param_slice_info_list)"

definition sorted_by_begin :: "send_plan \<Rightarrow> bool" where
  "sorted_by_begin plan = sorted_wrt (\<lambda>x y. fst (snd x) \<le> fst (snd y)) plan"

subsection \<open>Tilings\<close>




subsection \<open>The load path: \<open>get_params_info\<close> and \<open>reshape_params\<close>\<close>

text \<open>On the load path \<open>param_slice_info\<close> maps a name to its \<open>(begin, end)\<close> only.\<close>

type_synonym load_slice_info = "(string \<times> (int \<times> int)) list"

definition get_params_info ::
  "comm_buffer list \<Rightarrow> string list \<times> load_slice_info \<times> shape_info" where
  "get_params_info comm_buffer_list =
     fold (\<lambda>(key, v) (expected_keys, param_slice_info, param_shape_info).
             if param_end v > param_begin v then
               (expected_keys @ [key],
                AList.update key (param_begin v, param_end v) param_slice_info,
                AList.update key
                  (param_shape v, prod_list (param_shape v), index v, padded_size v)
                  param_shape_info)
             else (expected_keys, param_slice_info, param_shape_info))
       (buffer_keys comm_buffer_list) ([], [], [])"

text \<open>
  One turn of the loop of \<open>reshape_params\<close> (lines 210-226). \<open>key.split("/")[0]\<close> is
  the key up to its first \<open>/\<close>; a structural name that \<open>struct2static_name_mappings\<close>
  does not know gives \<open>None\<close>, which is no key of \<open>param_slice_info\<close>.
\<close>

definition reshape_params_key ::
  "(string \<times> string) list \<Rightarrow> shape_info \<Rightarrow> load_slice_info \<Rightarrow> string \<Rightarrow>
     ('a::zero) state_dict \<Rightarrow> error + 'a state_dict" where
  "reshape_params_key struct2static_name_mappings param_shape_info param_slice_info key sd =
     (let key_name = takeWhile (\<lambda>c. c \<noteq> CHR ''/'') key;
          static_name = map_of struct2static_name_mappings key_name
      in case map_of sd key of
           None \<Rightarrow> Inl KeyError
         | Some t \<Rightarrow>
             if numel t > 1 then
               (case static_name of
                  None \<Rightarrow> Inl KeyError
                | Some sn \<Rightarrow>
                    (case map_of param_slice_info sn of
                       None \<Rightarrow> Inl KeyError
                     | Some (pbegin, pend) \<Rightarrow>
                         (case map_of param_shape_info sn of
                            None \<Rightarrow> Inl KeyError
                          | Some (_, n, idx, padded) \<Rightarrow>
                              (case slice_rows (flatten t) (pbegin - idx) (pend - idx) of
                                 Inl err \<Rightarrow> Inl err
                               | Inr t2 \<Rightarrow>
                                   (let padding_start = max pbegin (idx + n);
                                        padding_end = min pend (idx + padded)
                                    in if padding_start < padding_end then
                                         (case concat0
                                                 [t2, zeros (padding_end - padding_start)
                                                        (tdtype t2)] of
                                            Inl err \<Rightarrow> Inl err
                                          | Inr t3 \<Rightarrow> Inr (AList.update key t3 sd))
                                       else Inr (AList.update key t2 sd))))))
             else Inr sd)"

definition reshape_params ::
  "('a::zero) state_dict \<Rightarrow> (string \<times> string) list \<Rightarrow> shape_info \<Rightarrow> load_slice_info \<Rightarrow>
     error + 'a state_dict" where
  "reshape_params sd struct2static_name_mappings param_shape_info param_slice_info =
     for_each (reshape_params_key struct2static_name_mappings param_shape_info param_slice_info)
       (map fst sd) sd"

subsection \<open>One parameter through the merge on all ranks, and back\<close>





subsection \<open>The fallback scan of sibling shard files (lines 416-445)\<close>

text \<open>
  \<open>re.sub(r"_?shard\d+_?", "", s)\<close>. A match at the head of \<open>s\<close> is an optional
  underscore, \<open>shard\<close>, one or more digits (as many as there are) and an optional
  underscore; \<open>shard_match\<close> gives its length. File names are ASCII, so \<open>\d\<close> is a
  digit \<open>0\<close> to \<open>9\<close>.
\<close>

definition is_digit :: "char \<Rightarrow> bool" where
  "is_digit c = (c \<in> set ''0123456789'')"

definition shard_core :: "string \<Rightarrow> nat option" where
  "shard_core s =
     (if take 5 s = ''shard'' \<and> takeWhile is_digit (drop 5 s) \<noteq> [] then
        (let digits = length (takeWhile is_digit (drop 5 s));
             rest = drop (5 + digits) s
         in Some (5 + digits + (if take 1 rest = ''_'' then 1 else 0)))
      else None)"

definition shard_match :: "string \<Rightarrow> nat option" where
  "shard_match s =
     (if take 1 s = ''_'' then map_option Suc (shard_core (drop 1 s)) else shard_core s)"

text \<open>
  The substitution scans from the left; after a match it goes on behind it. The first
  argument counts the characters of the current match still to be dropped.
\<close>

fun strip_from :: "nat \<Rightarrow> string \<Rightarrow> string" where
  "strip_from k [] = []"
| "strip_from (Suc k) (c # cs) = strip_from k cs"
| "strip_from 0 (c # cs) =
     (case shard_match (c # cs) of
        Some m \<Rightarrow> strip_from (m - 1) cs
      | None \<Rightarrow> c # strip_from 0 cs)"

definition strip_shard :: "string \<Rightarrow> string" where
  "strip_shard s = strip_from 0 s"

definition startswith :: "string \<Rightarrow> string \<Rightarrow> bool" where
  "startswith s p = (take (length p) s = p)"

definition endswith :: "string \<Rightarrow> string \<Rightarrow> bool" where
  "endswith s p = (length p \<le> length s \<and> drop (length s - length p) s = p)"

text \<open>
  The checkpoint directory: the names \<open>os.listdir\<close> returns, each with the tensors of
  the file when \<open>safe_open\<close> can read it, and \<open>None\<close> when it cannot.
\<close>

type_synonym 'a checkpoint_dir = "(string \<times> (string \<times> 'a tensor) list option) list"

text \<open>Lines 418-426: the files that are scanned.\<close>

definition backup_files :: "string \<Rightarrow> string \<Rightarrow> string list \<Rightarrow> string list" where
  "backup_files name name_prefix files =
     filter (\<lambda>f. startswith f name_prefix \<and> endswith f ''safetensors'' \<and> f \<noteq> name
                  \<and> strip_shard f = strip_shard name) files"

text \<open>Lines 431-436: the loop over \<open>unfound_keys\<close> in one open file.\<close>

definition pull_keys :: "string list \<Rightarrow> (string \<times> 'a tensor) list \<Rightarrow> 'a state_dict \<Rightarrow> 'a state_dict" where
  "pull_keys unfound_keys file sd =
     fold (\<lambda>key acc. (case map_of file key of
                         None \<Rightarrow> acc
                       | Some tensor \<Rightarrow> AList.update key tensor acc))
       unfound_keys sd"

definition scan_file ::
  "'a checkpoint_dir \<Rightarrow> string list \<Rightarrow> string \<Rightarrow> 'a state_dict \<Rightarrow> error + 'a state_dict" where
  "scan_file dir unfound_keys f sd =
     (case map_of dir f of
        Some (Some file) \<Rightarrow> Inr (pull_keys unfound_keys file sd)
      | _ \<Rightarrow> Inl IOError)"

text \<open>
  \<open>get_unfound_params\<close>, which changes \<open>state_dict\<close> in place; here it returns the
  dictionary. \<open>unfound_keys\<close> is a set, listed in any order.
\<close>

definition get_unfound_params ::
  "'a checkpoint_dir \<Rightarrow> string \<Rightarrow> string \<Rightarrow> string list \<Rightarrow> 'a state_dict \<Rightarrow> bool \<Rightarrow>
     error + 'a state_dict" where
  "get_unfound_params dir optimizer_name master_weights_name unfound_keys sd is_optimizer =
     (if length unfound_keys > 0 then
        (let files = map fst dir;
             name = (if is_optimizer then optimizer_name else master_weights_name);
             name_prefix = (if is_optimizer then ''optimizer'' else ''master_weights'')
         in for_each (scan_file dir unfound_keys) (backup_files name name_prefix files) sd)
      else Inr sd)"

text \<open>Lines 439-440: \<open>expected_keys_optim - optimizer_state_dict.keys()\<close>, then the scan.\<close>

definition unfound :: "string list \<Rightarrow> 'a state_dict \<Rightarrow> string list" where
  "unfound expected_keys sd = filter (\<lambda>k. k \<notin> fst ` set sd) (remdups expected_keys)"

definition load_fallback ::
  "'a checkpoint_dir \<Rightarrow> string \<Rightarrow> string \<Rightarrow> string list \<Rightarrow> 'a state_dict \<Rightarrow>
     error + 'a state_dict" where
  "load_fallback dir optimizer_name master_weights_name expected_keys_optim optimizer_state_dict =
     get_unfound_params dir optimizer_name master_weights_name
       (unfound expected_keys_optim optimizer_state_dict) optimizer_state_dict True"

text \<open>Lines 443-445: the same for the master weights, when the primary load gave any.\<close>

definition load_fallback_master_weights ::
  "'a checkpoint_dir \<Rightarrow> string \<Rightarrow> string \<Rightarrow> string list \<Rightarrow> 'a state_dict \<Rightarrow>
     error + 'a state_dict" where
  "load_fallback_master_weights dir optimizer_name master_weights_name expected_keys
     master_weights =
     (if master_weights \<noteq> [] then
        get_unfound_params dir optimizer_name master_weights_name
          (unfound expected_keys master_weights) master_weights False
      else Inr master_weights)"

text \<open>
  What a scan of \<open>files\<close> for \<open>keys\<close> makes of a dictionary: a key of \<open>keys\<close> that one of
  the files holds gets a tensor that one of them holds under it; every other key is as
  it was, present or absent.
\<close>

definition pulled_from ::
  "'a checkpoint_dir \<Rightarrow> string list \<Rightarrow> string list \<Rightarrow> 'a state_dict \<Rightarrow> 'a state_dict \<Rightarrow> bool" where
  "pulled_from dir files keys sd sd' =
     (\<forall>k. if k \<in> set keys
              \<and> (\<exists>f \<in> set files. \<exists>file. map_of dir f = Some (Some file) \<and> map_of file k \<noteq> None)
           then (\<exists>f \<in> set files. \<exists>file t. map_of dir f = Some (Some file)
                    \<and> map_of file k = Some t \<and> map_of sd' k = Some t)
           else map_of sd' k = map_of sd k)"

subsection \<open>Master weights on the load path\<close>








section \<open>Properties\<close>

subsection \<open>Classification of a local slice\<close>

lemma classify_slice_Full: "classify_slice b e n = Full \<longleftrightarrow> e - b = n"
  by (simp add: classify_slice_def)

lemma classify_slice_Empty: "classify_slice b e n = Empty \<longleftrightarrow> e \<le> b \<and> e - b \<noteq> n"
  by (simp add: classify_slice_def)

lemma classify_slice_Partial: "classify_slice b e n = Partial \<longleftrightarrow> b < e \<and> e - b \<noteq> n"
  by (auto simp add: classify_slice_def)

lemma classify_key_step:
  assumes "map_of sd key = Some t" and "numel t \<noteq> 1"
    and "map_of psi (fst (gbsn key)) = Some (Slice b e)"
    and "map_of pshape (fst (gbsn key)) = Some (shape, n, i, p)"
  shows "classify_key gbsn psi pshape key (sd, pl) =
     (case classify_slice b e n of
        Full \<Rightarrow> (case reshape t shape of Inl err \<Rightarrow> Inl err
                 | Inr t' \<Rightarrow> Inr (AList.update key t' sd, pl))
      | Empty \<Rightarrow> Inr (sd, pl)
      | Partial \<Rightarrow> Inr (sd, pl @ [fst (gbsn key)]))"
proof -
  have "fst (gbsn key) \<in> fst ` set psi"
    using assms(3) by (metis domI dom_map_of_conv_image_fst)
  then show ?thesis using assms by (simp add: classify_key_def Let_def)
qed

text \<open>
  C2, as the code has it. For a key of the optimizer state whose tensor does not have
  exactly one element and whose static name has the local slice \<open>(begin, end)\<close> and the
  element count \<open>numel\<close>: the key is full (the turn reshapes its tensor to the logical
  shape, or raises when the shape does not fit) if and only if \<open>end - begin = numel\<close>;
  it is empty (the turn changes nothing) if and only if \<open>end \<le> begin\<close> and
  \<open>end - begin \<noteq> numel\<close>, which for \<open>numel > 0\<close> is \<open>end \<le> begin\<close>; and its static name is
  appended to \<open>partial_tensor_list\<close> if and only if \<open>begin < end\<close> and
  \<open>end - begin \<noteq> numel\<close>. The last case holds the slices shorter than \<open>numel\<close> and
  also the longer ones, those that run into the padding.
\<close>

theorem C2_classification:
  assumes "map_of optim_state_dict key = Some t" and "numel t \<noteq> 1"
    and "map_of param_slice_info (fst (gbsn key)) = Some (Slice pbegin pend)"
    and "map_of param_shape_info (fst (gbsn key)) = Some (shape, n, idx, padded)"
  shows "(classify_slice pbegin pend n = Full \<longleftrightarrow> pend - pbegin = n)
       \<and> (classify_slice pbegin pend n = Empty \<longleftrightarrow> pend \<le> pbegin \<and> pend - pbegin \<noteq> n)
       \<and> (classify_slice pbegin pend n = Partial \<longleftrightarrow> pbegin < pend \<and> pend - pbegin \<noteq> n)
       \<and> (0 < n \<longrightarrow> (classify_slice pbegin pend n = Empty \<longleftrightarrow> pend \<le> pbegin))
       \<and> classify_key gbsn param_slice_info param_shape_info key
             (optim_state_dict, partial_tensor_list) =
           (case classify_slice pbegin pend n of
              Full \<Rightarrow> (case reshape t shape of
                         Inl err \<Rightarrow> Inl err
                       | Inr t' \<Rightarrow> Inr (AList.update key t' optim_state_dict, partial_tensor_list))
            | Empty \<Rightarrow> Inr (optim_state_dict, partial_tensor_list)
            | Partial \<Rightarrow> Inr (optim_state_dict, partial_tensor_list @ [fst (gbsn key)]))
       \<and> ((\<exists>sd'. classify_key gbsn param_slice_info param_shape_info key
                   (optim_state_dict, partial_tensor_list) =
                 Inr (sd', partial_tensor_list @ [fst (gbsn key)]))
            \<longleftrightarrow> pbegin < pend \<and> pend - pbegin \<noteq> n)"
proof -
  note step = classify_key_step [where gbsn = gbsn and key = key and pl = partial_tensor_list,
      OF assms]
  have "(\<exists>sd'. classify_key gbsn param_slice_info param_shape_info key
                   (optim_state_dict, partial_tensor_list) =
                 Inr (sd', partial_tensor_list @ [fst (gbsn key)]))
            \<longleftrightarrow> classify_slice pbegin pend n = Partial"
    unfolding step by (cases "classify_slice pbegin pend n") (auto split: sum.splits)
  then show ?thesis
    using step
    by (auto simp add: classify_slice_Full classify_slice_Empty classify_slice_Partial)
qed

text \<open>
  The theorem at a slice of 6 of the 10 elements: rank 0 of the two ranks that share a
  parameter of 10 elements padded to 12.
\<close>

theorem C2_classification_witness:
  "map_of [(''w_moment1_0'', \<lparr>tdata = replicate 6 (0::int), tshape = [6], tdtype = Float32,
                               tname = []\<rparr>)] ''w_moment1_0''
     = Some \<lparr>tdata = replicate 6 (0::int), tshape = [6], tdtype = Float32, tname = []\<rparr>
   \<and> numel \<lparr>tdata = replicate 6 (0::int), tshape = [6], tdtype = Float32, tname = []\<rparr> \<noteq> 1
   \<and> classify_slice 0 6 10 = Partial
   \<and> classify_key (\<lambda>k. (''w'', ''moment1_0''))
        [(''w'', Slice 0 6), (''global_rank'', Rank 0)] [(''w'', ([10], 10, 0, 12))]
        ''w_moment1_0''
        ([(''w_moment1_0'', \<lparr>tdata = replicate 6 (0::int), tshape = [6], tdtype = Float32,
                              tname = []\<rparr>)], [])
      = Inr ([(''w_moment1_0'', \<lparr>tdata = replicate 6 (0::int), tshape = [6],
                                  tdtype = Float32, tname = []\<rparr>)], [''w''])"
proof -
  let ?t = "\<lparr>tdata = replicate 6 (0::int), tshape = [6], tdtype = Float32, tname = []\<rparr>"
  let ?g = "\<lambda>k::string. (''w'', ''moment1_0'')"
  have h1: "map_of [(''w_moment1_0'', ?t)] ''w_moment1_0'' = Some ?t" by simp
  have h2: "numel ?t \<noteq> 1" by (simp add: numel_def)
  have h3: "map_of [(''w'', Slice 0 6), (''global_rank'', Rank 0)] (fst (?g ''w_moment1_0''))
              = Some (Slice 0 6)" by simp
  have h4: "map_of [(''w'', ([10], 10, 0, 12))] (fst (?g ''w_moment1_0''))
              = Some ([10::int], 10::int, 0::int, 12::int)" by simp
  show ?thesis
    using h1 h2
      C2_classification [where gbsn = ?g and key = "''w_moment1_0''"
        and partial_tensor_list = "[]", OF h1 h2 h3 h4]
    by (simp add: classify_slice_def)
qed

text \<open>
  The claim as stated fails where one rank holds the whole padded block of a parameter:
  10 elements padded to 12, local slice \<open>[0, 12)\<close>. The name is appended to
  \<open>partial_tensor_list\<close> although \<open>end - begin < numel\<close> is false.
\<close>

theorem C2_longer_slice_is_partial_counterexample:
  "classify_key (\<lambda>k. (''w'', ''moment1_0''))
     [(''w'', Slice 0 12), (''global_rank'', Rank 0)] [(''w'', ([10], 10, 0, 12))]
     ''w_moment1_0''
     ([(''w_moment1_0'', \<lparr>tdata = replicate 12 (0::int), tshape = [12], tdtype = Float32,
                           tname = []\<rparr>)], [])
   = Inr ([(''w_moment1_0'', \<lparr>tdata = replicate 12 (0::int), tshape = [12],
                               tdtype = Float32, tname = []\<rparr>)], [''w''])
   \<and> \<not> (0 < (12::int) - 0 \<and> (12::int) - 0 < 10)"
  by (simp add: classify_key_def classify_slice_def numel_def)

subsection \<open>Loops\<close>

lemma for_each_ConsD:
  "for_each body (k # ks) s = Inr s'' \<Longrightarrow>
     \<exists>s'. body k s = Inr s' \<and> for_each body ks s' = Inr s''"
  by (cases "body k s") auto

subsection \<open>The send and receive tables\<close>

lemma sharding_ranklist_holders:
  "sharding_ranklist key cats = Inr l \<Longrightarrow> l = holders key cats"
proof (induction cats arbitrary: l)
  case Nil
  then show ?case by (simp add: holders_def)
next
  case (Cons c cats)
  then show ?case
    by (auto simp add: holders_def split: option.splits slice_entry.splits if_splits sum.splits)
qed

lemma build_tables_key_Inr:
  assumes "build_tables_key cats key (s, r) = Inr (s', r')"
  shows "holders key cats \<noteq> []"
    and "s' = AList.update key (holders key cats) s"
    and "r' = AList.update key (fst (hd (holders key cats))) r"
proof -
  from assms obtain l where l: "sharding_ranklist key cats = Inr l"
    by (auto simp add: build_tables_key_def split: sum.splits)
  then have eq: "l = holders key cats" by (rule sharding_ranklist_holders)
  from assms l eq show "holders key cats \<noteq> []"
    by (auto simp add: build_tables_key_def split: list.splits)
  from assms l eq show "s' = AList.update key (holders key cats) s"
    by (auto simp add: build_tables_key_def split: list.splits)
  from assms l eq show "r' = AList.update key (fst (hd (holders key cats))) r"
    by (auto simp add: build_tables_key_def split: list.splits)
qed

lemma for_each_build_tables:
  "for_each (build_tables_key cats) pl (s, r) = Inr (s', r') \<Longrightarrow>
     (\<forall>k. map_of s' k = (if k \<in> set pl then Some (holders k cats) else map_of s k))
   \<and> (\<forall>k. map_of r' k = (if k \<in> set pl then Some (fst (hd (holders k cats))) else map_of r k))
   \<and> (\<forall>k \<in> set pl. holders k cats \<noteq> [])"
proof (induction pl arbitrary: s r)
  case Nil
  then show ?case by simp
next
  case (Cons key pl)
  from Cons.prems obtain s1 r1 where
    step: "build_tables_key cats key (s, r) = Inr (s1, r1)"
    and rest: "for_each (build_tables_key cats) pl (s1, r1) = Inr (s', r')"
    using for_each_ConsD [OF Cons.prems] by fastforce
  note k = build_tables_key_Inr [OF step]
  note ih = Cons.IH [OF rest]
  show ?case
    using ih k by (auto simp add: update_conv')
qed

text \<open>
  C1, as the code has it. For every name of \<open>partial_tensor_list\<close>, the send plan
  (\<open>send_table\<close>) lists the ranks whose gathered slice has \<open>end > begin\<close>, each with its
  slice, in the order of the gathered catalogs (the order of the ranks in the sharding
  group); nothing sorts it. \<open>recv_rank\<close> (\<open>recv_table\<close>) is the rank that comes first in
  that order. When the gathered order is by ascending \<open>begin\<close>, the plan is sorted by
  \<open>begin\<close> and the receiving rank holds the fragment with the least \<open>begin\<close>.
\<close>

theorem C1_tables_in_gathered_order:
  assumes "build_tables param_slice_info_list partial_tensor_list = Inr (send_table, recv_table)"
    and "name \<in> set partial_tensor_list"
  shows "map_of send_table name = Some (holders name param_slice_info_list)
       \<and> holders name param_slice_info_list \<noteq> []
       \<and> map_of recv_table name = Some (fst (hd (holders name param_slice_info_list)))
       \<and> (sorted_by_begin (holders name param_slice_info_list) \<longrightarrow>
            (\<forall>frag \<in> set (holders name param_slice_info_list).
               fst (snd (hd (holders name param_slice_info_list))) \<le> fst (snd frag)))"
proof -
  note t = for_each_build_tables [OF assms(1) [unfolded build_tables_def]]
  have "sorted_by_begin l \<Longrightarrow> l \<noteq> [] \<Longrightarrow> \<forall>frag \<in> set l. fst (snd (hd l)) \<le> fst (snd frag)"
    for l :: send_plan
    by (cases l) (auto simp add: sorted_by_begin_def)
  with t assms(2) show ?thesis by auto
qed

text \<open>Two ranks that share a parameter, rank 0 with \<open>[0, 6)\<close> and rank 1 with \<open>[6, 12)\<close>.\<close>

theorem C1_tables_in_gathered_order_witness:
  "build_tables [[(''w'', Slice 0 6), (''global_rank'', Rank 0)],
                 [(''w'', Slice 6 12), (''global_rank'', Rank 1)]] [''w'']
     = Inr ([(''w'', [(0, 0, 6), (1, 6, 12)])], [(''w'', 0)])
   \<and> holders ''w'' [[(''w'', Slice 0 6), (''global_rank'', Rank 0)],
                     [(''w'', Slice 6 12), (''global_rank'', Rank 1)]]
     = [(0, 0, 6), (1, 6, 12)]
   \<and> sorted_by_begin [(0, 0, 6), (1, 6, 12)]"
proof -
  have h1: "build_tables [[(''w'', Slice 0 6), (''global_rank'', Rank 0)],
                          [(''w'', Slice 6 12), (''global_rank'', Rank 1)]] [''w'']
              = Inr ([(''w'', [(0, 0, 6), (1, 6, 12)])], [(''w'', 0)])"
    by (simp add: build_tables_def build_tables_key_def)
  have h2: "''w'' \<in> set [''w'']" by simp
  show ?thesis
    using h1 C1_tables_in_gathered_order [OF h1 h2]
    by (simp add: sorted_by_begin_def holders_def)
qed

text \<open>
  The claim as stated fails when the order of the ranks is not the order of the offsets:
  rank 0 holds \<open>[6, 12)\<close> and rank 1 holds \<open>[0, 6)\<close> of a parameter of 10 elements
  padded to 12, which both ranks classify as partial. The plan starts with the fragment
  that begins at 6, and the receiving rank is rank 0, not the holder of offset 0.
\<close>

theorem C1_plan_not_sorted_counterexample:
  "classify_slice 6 12 10 = Partial \<and> classify_slice 0 6 10 = Partial
   \<and> build_tables [[(''w'', Slice 6 12), (''global_rank'', Rank 0)],
                   [(''w'', Slice 0 6), (''global_rank'', Rank 1)]] [''w'']
     = Inr ([(''w'', [(0, 6, 12), (1, 0, 6)])], [(''w'', 0)])
   \<and> \<not> sorted_by_begin [(0, 6, 12), (1, 0, 6)]"
  by (simp add: build_tables_def build_tables_key_def sorted_by_begin_def classify_slice_def)

subsection \<open>The lookups of the tables cannot fail\<close>

lemma map_of_fold_update:
  "map_of (fold (\<lambda>(key, v). AList.update key (f v)) xs acc) k =
     (case map_of (rev xs) k of None \<Rightarrow> map_of acc k | Some v \<Rightarrow> Some (f v))"
proof (induction xs arbitrary: acc)
  case Nil
  then show ?case by simp
next
  case (Cons x xs)
  obtain key v where x: "x = (key, v)" by (cases x)
  show ?case
    by (simp add: Cons.IH x update_conv' map_add_def split: option.splits)
qed

lemma map_of_build_param_slice_info:
  "map_of (build_param_slice_info r bufs) k =
     (if k = ''global_rank'' then Some (Rank r)
      else map_option (\<lambda>v. Slice (param_begin v) (param_end v))
             (map_of (rev (buffer_keys bufs)) k))"
  by (simp add: build_param_slice_info_def update_conv' map_of_fold_update split: option.splits)

lemma classify_key_partial:
  assumes "classify_key gbsn psi pshape key (sd, pl) = Inr (sd', pl')"
  shows "pl' = pl \<or>
         (\<exists>name b e. pl' = pl @ [name] \<and> map_of psi name = Some (Slice b e) \<and> b < e)"
  using assms
  by (auto simp add: classify_key_def Let_def classify_slice_def
      split: option.splits if_splits slice_entry.splits sum.splits slice_class.splits
        prod.splits)

lemma for_each_classify_partial:
  assumes "for_each (classify_key gbsn psi pshape) ks (sd, pl) = Inr (sd', pl')"
    and "\<forall>name \<in> set pl. \<exists>b e. map_of psi name = Some (Slice b e) \<and> b < e"
  shows "\<forall>name \<in> set pl'. \<exists>b e. map_of psi name = Some (Slice b e) \<and> b < e"
  using assms
proof (induction ks arbitrary: sd pl)
  case Nil
  then show ?case by simp
next
  case (Cons k ks)
  from for_each_ConsD [OF Cons.prems(1)] obtain sd1 pl1 where
    step: "classify_key gbsn psi pshape k (sd, pl) = Inr (sd1, pl1)"
    and rest: "for_each (classify_key gbsn psi pshape) ks (sd1, pl1) = Inr (sd', pl')"
    by fastforce
  from classify_key_partial [OF step] Cons.prems(2)
  have "\<forall>name \<in> set pl1. \<exists>b e. map_of psi name = Some (Slice b e) \<and> b < e"
    by auto
  from Cons.IH [OF rest this] show ?case .
qed

lemma classify_partial:
  assumes "classify gbsn psi pshape sd = Inr (sd', pl)" and "name \<in> set pl"
  shows "\<exists>b e. map_of psi name = Some (Slice b e) \<and> b < e"
  using for_each_classify_partial [OF assms(1) [unfolded classify_def]] assms(2) by simp

lemma sharding_ranklist_total:
  assumes "\<forall>c \<in> set cats. (\<exists>b e. map_of c key = Some (Slice b e))
             \<and> (\<exists>r. map_of c ''global_rank'' = Some (Rank r))"
  shows "sharding_ranklist key cats = Inr (holders key cats)"
  using assms
proof (induction cats)
  case Nil
  then show ?case by (simp add: holders_def)
next
  case (Cons c cats)
  then have ih: "sharding_ranklist key cats = Inr (holders key cats)" by simp
  from Cons.prems obtain b e r where
    "map_of c key = Some (Slice b e)" "map_of c ''global_rank'' = Some (Rank r)"
    by auto
  then show ?case using ih by (simp add: holders_def)
qed

lemma holders_member:
  assumes "c \<in> set cats" and "map_of c key = Some (Slice b e)" and "b < e"
    and "map_of c ''global_rank'' = Some (Rank r)"
  shows "(r, b, e) \<in> set (holders key cats)"
  using assms by (force simp add: holders_def)

lemma for_each_build_tables_total:
  assumes "\<forall>k \<in> set pl. \<exists>l. sharding_ranklist k cats = Inr l \<and> l \<noteq> []"
  shows "\<exists>tables. for_each (build_tables_key cats) pl t = Inr tables"
  using assms
proof (induction pl arbitrary: t)
  case Nil
  then show ?case by simp
next
  case (Cons k pl)
  from Cons.prems obtain l where l: "sharding_ranklist k cats = Inr l" "l \<noteq> []" by auto
  then obtain t1 where "build_tables_key cats k t = Inr t1"
    by (cases l) (auto simp add: build_tables_key_def)
  moreover from Cons.IH [of t1] Cons.prems obtain tables where
    "for_each (build_tables_key cats) pl t1 = Inr tables" by auto
  ultimately show ?case by auto
qed

text \<open>
  C10. The local catalog records the slice of every parameter of the communication
  buffers, whether the rank holds a part of it or not. So when every rank of the group
  has built its catalog from buffers with the same parameter names, and the gathered
  list holds the local catalog: for every name of \<open>partial_tensor_list\<close> the lookup
  \<open>slice_info[name]\<close> succeeds in every gathered catalog, the filtered
  \<open>sharding_ranklist\<close> is not empty (the local rank is in it, since a partial name has
  \<open>end > begin\<close> locally), and building the tables raises nothing.
\<close>

theorem C10_table_lookups_succeed:
  assumes local: "param_slice_info = build_param_slice_info global_rank comm_buffer_list"
    and cls: "classify gbsn param_slice_info param_shape_info optim_state_dict
                = Inr (sd', partial_tensor_list)"
    and gathered:
      "param_slice_info_list = map (\<lambda>(r, bufs). build_param_slice_info r bufs) ranks"
    and self: "(global_rank, comm_buffer_list) \<in> set ranks"
    and same: "\<forall>(r, bufs) \<in> set ranks.
                 fst ` set (buffer_keys bufs) = fst ` set (buffer_keys comm_buffer_list)"
  shows "(\<forall>key \<in> fst ` set (buffer_keys comm_buffer_list). key \<noteq> ''global_rank'' \<longrightarrow>
            (\<exists>v \<in> set (map snd (buffer_keys comm_buffer_list)).
               map_of param_slice_info key = Some (Slice (param_begin v) (param_end v))))
       \<and> (\<forall>name \<in> set partial_tensor_list. \<forall>slice_info \<in> set param_slice_info_list.
            \<exists>b e. map_of slice_info name = Some (Slice b e))
       \<and> (\<forall>name \<in> set partial_tensor_list.
            \<exists>l. sharding_ranklist name param_slice_info_list = Inr l \<and> l \<noteq> [])
       \<and> (\<exists>tables. build_tables param_slice_info_list partial_tensor_list = Inr tables)"
proof -
  have keys: "\<exists>v \<in> set (map snd (buffer_keys bufs)).
                map_of (build_param_slice_info r bufs) key
                  = Some (Slice (param_begin v) (param_end v))"
    if "key \<in> fst ` set (buffer_keys bufs)" "key \<noteq> ''global_rank''" for key r bufs
  proof -
    from that(1) have "key \<in> fst ` set (rev (buffer_keys bufs))" by simp
    then obtain v where v: "map_of (rev (buffer_keys bufs)) key = Some v"
      by (metis domD dom_map_of_conv_image_fst)
    then have "(key, v) \<in> set (buffer_keys bufs)" by (auto dest: map_of_SomeD)
    then have "v \<in> set (map snd (buffer_keys bufs))" by force
    with v that(2) show ?thesis by (auto simp add: map_of_build_param_slice_info)
  qed
  have part: "\<exists>b e. map_of param_slice_info name = Some (Slice b e) \<and> b < e"
    if "name \<in> set partial_tensor_list" for name
    using classify_partial [OF cls that] .
  have names: "name \<noteq> ''global_rank'' \<and> name \<in> fst ` set (buffer_keys comm_buffer_list)"
    if "name \<in> set partial_tensor_list" for name
  proof -
    from part [OF that] obtain b e where
      s: "map_of param_slice_info name = Some (Slice b e)" by auto
    then have ne: "name \<noteq> ''global_rank''"
      by (auto simp add: local map_of_build_param_slice_info)
    with s obtain v where "map_of (rev (buffer_keys comm_buffer_list)) name = Some v"
      by (auto simp add: local map_of_build_param_slice_info)
    then have "name \<in> fst ` set (buffer_keys comm_buffer_list)"
      by (metis domI dom_map_of_conv_image_fst set_rev)
    with ne show ?thesis by simp
  qed
  have all: "\<exists>b e. map_of c name = Some (Slice b e)"
    if "name \<in> set partial_tensor_list" "c \<in> set param_slice_info_list" for name c
  proof -
    from that(2) obtain r bufs where
      rb: "(r, bufs) \<in> set ranks" "c = build_param_slice_info r bufs"
      by (auto simp add: gathered)
    from same rb(1)
    have "fst ` set (buffer_keys bufs) = fst ` set (buffer_keys comm_buffer_list)"
      by (metis (mono_tags, lifting) case_prodD)
    with names [OF that(1)] keys [of name bufs r] rb(2) show ?thesis by auto
  qed
  have rank_entry: "\<exists>r. map_of c ''global_rank'' = Some (Rank r)"
    if "c \<in> set param_slice_info_list" for c
    using that by (auto simp add: gathered map_of_build_param_slice_info)
  have rl: "\<exists>l. sharding_ranklist name param_slice_info_list = Inr l \<and> l \<noteq> []"
    if "name \<in> set partial_tensor_list" for name
  proof -
    have "sharding_ranklist name param_slice_info_list
            = Inr (holders name param_slice_info_list)"
      using all [OF that] rank_entry by (intro sharding_ranklist_total) auto
    moreover have "param_slice_info \<in> set param_slice_info_list"
      using self by (force simp add: gathered local)
    with part [OF that] have "holders name param_slice_info_list \<noteq> []"
      using holders_member [of param_slice_info param_slice_info_list name _ _ global_rank]
      by (auto simp add: local map_of_build_param_slice_info)
    ultimately show ?thesis by simp
  qed
  have "\<exists>tables. build_tables param_slice_info_list partial_tensor_list = Inr tables"
    unfolding build_tables_def using rl by (intro for_each_build_tables_total) auto
  with keys all rl show ?thesis by (auto simp add: local)
qed

text \<open>
  Two ranks with the same two parameters: \<open>w\<close>, split between them, and \<open>b\<close>, which
  rank 0 does not hold (\<open>end = begin\<close>) and still records.
\<close>

theorem C10_table_lookups_succeed_witness:
  "\<exists>tables. build_tables
      (map (\<lambda>(r, bufs). build_param_slice_info r bufs)
         [(0, [[(''w'', \<lparr>param_begin = 0, param_end = 6, param_shape = [10], index = 0,
                          padded_size = 12\<rparr>),
                (''b'', \<lparr>param_begin = 12, param_end = 12, param_shape = [4], index = 12,
                          padded_size = 4\<rparr>)]]),
          (1, [[(''w'', \<lparr>param_begin = 6, param_end = 12, param_shape = [10], index = 0,
                          padded_size = 12\<rparr>),
                (''b'', \<lparr>param_begin = 12, param_end = 16, param_shape = [4], index = 12,
                          padded_size = 4\<rparr>)]])])
      [''w''] = Inr tables"
proof -
  let ?b0 = "[[(''w'', \<lparr>param_begin = 0, param_end = 6, param_shape = [10], index = 0,
                         padded_size = 12\<rparr>),
               (''b'', \<lparr>param_begin = 12, param_end = 12, param_shape = [4], index = 12,
                         padded_size = 4\<rparr>)]]"
  let ?b1 = "[[(''w'', \<lparr>param_begin = 6, param_end = 12, param_shape = [10], index = 0,
                         padded_size = 12\<rparr>),
               (''b'', \<lparr>param_begin = 12, param_end = 16, param_shape = [4], index = 12,
                         padded_size = 4\<rparr>)]]"
  let ?t = "\<lparr>tdata = replicate 6 (0::int), tshape = [6], tdtype = Float32, tname = []\<rparr>"
  let ?g = "\<lambda>k::string. (''w'', ''moment1_0'')"
  have h2: "classify ?g (build_param_slice_info 0 ?b0) (build_param_shape_info ?b0)
              [(''w_moment1_0'', ?t)]
            = Inr ([(''w_moment1_0'', ?t)], [''w''])"
    by (simp add: classify_def classify_key_def build_param_slice_info_def
        build_param_shape_info_def buffer_keys_def classify_slice_def numel_def)
  have h4: "(0, ?b0) \<in> set [(0::nat, ?b0), (1, ?b1)]" by simp
  have h5: "\<forall>(r, bufs) \<in> set [(0::nat, ?b0), (1, ?b1)].
              fst ` set (buffer_keys bufs) = fst ` set (buffer_keys ?b0)"
    by (simp add: buffer_keys_def)
  show ?thesis
    using C10_table_lookups_succeed [OF refl h2 refl h4 h5] by simp
qed

subsection \<open>The receiving rank\<close>














subsection \<open>What the merge leaves in the state dictionary\<close>

lemma send_fragment_frame:
  assumes "send_fragment key rr gr bps bpe frag (sd, out) = Inr (sd', out')"
  shows "(k' \<noteq> key \<longrightarrow> map_of sd' k' = map_of sd k')
       \<and> (map_of sd key = None \<longrightarrow> map_of sd' key = None)
       \<and> (fst frag = gr \<longrightarrow> map_of sd' key = None \<and> (\<exists>payload. out' = out @ [(rr, payload)]))
       \<and> set out \<subseteq> set out'"
  using assms
  by (auto simp add: send_fragment_def Let_def delete_conv' split: if_splits option.splits sum.splits)

lemma for_each_send_fragment_frame:
  assumes "for_each (send_fragment key rr gr bps bpe) plan (sd, out) = Inr (sd', out')"
  shows "(k' \<noteq> key \<longrightarrow> map_of sd' k' = map_of sd k')
       \<and> (map_of sd key = None \<longrightarrow> map_of sd' key = None)
       \<and> (gr \<in> fst ` set plan \<longrightarrow> map_of sd' key = None \<and> (\<exists>payload. (rr, payload) \<in> set out'))
       \<and> set out \<subseteq> set out'"
  using assms
proof (induction plan arbitrary: sd out)
  case Nil
  then show ?case by simp
next
  case (Cons frag plan)
  from for_each_ConsD [OF Cons.prems] obtain sd1 out1 where
    step: "send_fragment key rr gr bps bpe frag (sd, out) = Inr (sd1, out1)"
    and rest: "for_each (send_fragment key rr gr bps bpe) plan (sd1, out1) = Inr (sd', out')"
    by fastforce
  note s = send_fragment_frame [OF step, of k']
  note ih = Cons.IH [OF rest]
  show ?case
  proof (intro conjI impI)
    assume "k' \<noteq> key" with s ih show "map_of sd' k' = map_of sd k'" by simp
  next
    assume "map_of sd key = None" with s ih show "map_of sd' key = None" by simp
  next
    assume "gr \<in> fst ` set (frag # plan)"
    then consider "fst frag = gr" | "gr \<in> fst ` set plan" by auto
    then show "map_of sd' key = None" using s ih by cases auto
  next
    assume "gr \<in> fst ` set (frag # plan)"
    then consider "fst frag = gr" | "gr \<in> fst ` set plan" by auto
    then show "\<exists>payload. (rr, payload) \<in> set out'"
    proof cases
      case 1
      with s obtain payload where "out1 = out @ [(rr, payload)]" by auto
      with ih show ?thesis by auto
    next
      case 2
      with ih show ?thesis by simp
    qed
  next
    from s ih show "set out \<subseteq> set out'" by blast
  qed
qed

lemma merge_key_scalar:
  assumes "map_of (state_dict s) key = Some t" and "numel t = 1"
  shows "merge_key gbsn u gr partial pshape send recv mw key s = Inr s"
  using assms by (simp add: merge_key_def)

lemma merge_key_full:
  assumes "merge_key gbsn u gr partial pshape send recv mw key s = Inr s'"
    and "map_of (state_dict s) key = Some t" and "numel t \<noteq> 1"
    and "name = (if mw then key else fst (gbsn key))"
    and "name \<notin> set partial"
  shows "\<exists>shape n idx padded t'. map_of pshape name = Some (shape, n, idx, padded)
           \<and> reshape t shape = Inr t'
           \<and> s' = s\<lparr>state_dict := AList.update key t' (state_dict s)\<rparr>"
  using assms
  by (auto simp add: merge_key_def Let_def split: option.splits sum.splits if_splits)

lemma merge_key_owner:
  assumes "merge_key gbsn u gr partial pshape send recv mw key s = Inr s'"
    and "map_of (state_dict s) key = Some t" and "numel t \<noteq> 1"
    and "name = (if mw then key else fst (gbsn key))"
    and "name \<in> set partial" and "map_of recv name = Some gr"
  shows "\<exists>shape n idx padded plan pieces box' c m.
           map_of pshape name = Some (shape, n, idx, padded)
           \<and> map_of send name = Some plan
           \<and> recv_fragments u gr t (idx + n) (idx + padded) plan (inbox s) = Inr (pieces, box')
           \<and> concat0 pieces = Inr c \<and> reshape c shape = Inr m
           \<and> s' = s\<lparr>state_dict := AList.update key m (state_dict s), inbox := box'\<rparr>"
  using assms
  by (auto simp add: merge_key_def Let_def split: option.splits sum.splits if_splits)

lemma merge_key_sender:
  assumes "merge_key gbsn u gr partial pshape send recv mw key s = Inr s'"
    and "map_of (state_dict s) key = Some t" and "numel t \<noteq> 1"
    and "name = (if mw then key else fst (gbsn key))"
    and "name \<in> set partial" and "map_of recv name = Some rr" and "gr \<noteq> rr"
  shows "\<exists>shape n idx padded plan sd' out'.
           map_of pshape name = Some (shape, n, idx, padded)
           \<and> map_of send name = Some plan
           \<and> for_each (send_fragment key rr gr (idx + n) (idx + padded)) plan
                (state_dict s, outbox s) = Inr (sd', out')
           \<and> s' = s\<lparr>state_dict := sd', outbox := out'\<rparr>"
  using assms
  by (auto simp add: merge_key_def Let_def split: option.splits sum.splits if_splits)

lemma merge_key_frame:
  assumes "merge_key gbsn u gr partial pshape send recv mw key s = Inr s'"
  shows "(k' \<noteq> key \<longrightarrow> map_of (state_dict s') k' = map_of (state_dict s) k')
       \<and> set (outbox s) \<subseteq> set (outbox s')"
proof -
  from assms obtain t where t: "map_of (state_dict s) key = Some t"
    by (auto simp add: merge_key_def split: option.splits)
  define name where "name = (if mw then key else fst (gbsn key))"
  show ?thesis
  proof (cases "numel t = 1")
    case True
    from merge_key_scalar [OF t True] assms show ?thesis by simp
  next
    case multi: False
    show ?thesis
    proof (cases "name \<in> set partial")
      case False
      from merge_key_full [OF assms t multi name_def False] show ?thesis
        by (auto simp add: update_conv')
    next
      case True
      from assms t multi True obtain rr where rr: "map_of recv name = Some rr"
        by (auto simp add: merge_key_def Let_def name_def split: option.splits)
      show ?thesis
      proof (cases "gr = rr")
        case True
        with rr have "map_of recv name = Some gr" by simp
        from merge_key_owner [OF assms t multi name_def \<open>name \<in> set partial\<close> this]
        show ?thesis by (auto simp add: update_conv')
      next
        case False
        from merge_key_sender [OF assms t multi name_def \<open>name \<in> set partial\<close> rr False]
        obtain idx n padded plan sd' out' where
          loop: "for_each (send_fragment key rr gr (idx + n) (idx + padded)) plan
                   (state_dict s, outbox s) = Inr (sd', out')"
          and s': "s' = s\<lparr>state_dict := sd', outbox := out'\<rparr>" by blast
        from for_each_send_fragment_frame [OF loop, of k'] s' show ?thesis by simp
      qed
    qed
  qed
qed

lemma for_each_merge_key_outside:
  assumes "for_each (merge_key gbsn u gr partial pshape send recv mw) ks st = Inr st'"
  shows "(k \<notin> set ks \<longrightarrow> map_of (state_dict st') k = map_of (state_dict st) k)
       \<and> set (outbox st) \<subseteq> set (outbox st')"
  using assms
proof (induction ks arbitrary: st)
  case Nil
  then show ?case by simp
next
  case (Cons k0 ks)
  from for_each_ConsD [OF Cons.prems] obtain s1 where
    step: "merge_key gbsn u gr partial pshape send recv mw k0 st = Inr s1"
    and rest: "for_each (merge_key gbsn u gr partial pshape send recv mw) ks s1 = Inr st'"
    by blast
  from merge_key_frame [OF step, of k] Cons.IH [OF rest] show ?case by auto
qed

lemma for_each_merge_key_at:
  assumes "for_each (merge_key gbsn u gr partial pshape send recv mw) ks st = Inr st'"
    and "distinct ks" and "k \<in> set ks"
  shows "\<exists>s s'. merge_key gbsn u gr partial pshape send recv mw k s = Inr s'
           \<and> map_of (state_dict s) k = map_of (state_dict st) k
           \<and> map_of (state_dict st') k = map_of (state_dict s') k
           \<and> set (outbox s') \<subseteq> set (outbox st')"
  using assms
proof (induction ks arbitrary: st)
  case Nil
  then show ?case by simp
next
  case (Cons k0 ks)
  from for_each_ConsD [OF Cons.prems(1)] obtain s1 where
    step: "merge_key gbsn u gr partial pshape send recv mw k0 st = Inr s1"
    and rest: "for_each (merge_key gbsn u gr partial pshape send recv mw) ks s1 = Inr st'"
    by blast
  show ?case
  proof (cases "k = k0")
    case True
    with Cons.prems(2) have "k \<notin> set ks" by simp
    with for_each_merge_key_outside [OF rest, of k]
    have "map_of (state_dict st') k = map_of (state_dict s1) k" "set (outbox s1) \<subseteq> set (outbox st')"
      by simp_all
    with step True show ?thesis by blast
  next
    case False
    with Cons.prems have "distinct ks" "k \<in> set ks" by simp_all
    from Cons.IH [OF rest this] obtain s s' where
      "merge_key gbsn u gr partial pshape send recv mw k s = Inr s'"
      "map_of (state_dict s) k = map_of (state_dict s1) k"
      "map_of (state_dict st') k = map_of (state_dict s') k"
      "set (outbox s') \<subseteq> set (outbox st')" by blast
    moreover from merge_key_frame [OF step, of k] False
    have "map_of (state_dict s1) k = map_of (state_dict st) k" by simp
    ultimately show ?thesis by auto
  qed
qed

lemma drop_scalar_key_cases:
  assumes "drop_scalar_key gbsn gr partial send recv mw k0 sd = Inr sd1"
  shows "sd1 = sd \<or>
         (sd1 = AList.delete k0 sd
          \<and> (\<exists>t rr. map_of sd k0 = Some t \<and> numel t = 1
                \<and> (if mw then k0 else fst (gbsn k0)) \<in> set partial
                \<and> map_of recv (if mw then k0 else fst (gbsn k0)) = Some rr \<and> gr \<noteq> rr))"
  using assms
  by (auto simp add: drop_scalar_key_def Let_def split: option.splits if_splits)

lemma drop_scalar_key_drops:
  assumes "drop_scalar_key gbsn gr partial send recv mw k0 sd = Inr sd1"
    and "map_of sd k0 = Some t" and "numel t = 1"
    and "(if mw then k0 else fst (gbsn k0)) \<in> set partial"
    and "map_of recv (if mw then k0 else fst (gbsn k0)) = Some rr" and "gr \<noteq> rr"
  shows "sd1 = AList.delete k0 sd"
  using assms
  by (auto simp add: drop_scalar_key_def Let_def split: option.splits if_splits)

lemma for_each_drop_kept:
  assumes "for_each (drop_scalar_key gbsn gr partial send recv mw) ks sd = Inr sd'"
    and "\<not> (\<exists>t rr. map_of sd k = Some t \<and> numel t = 1
                \<and> (if mw then k else fst (gbsn k)) \<in> set partial
                \<and> map_of recv (if mw then k else fst (gbsn k)) = Some rr \<and> gr \<noteq> rr)"
  shows "map_of sd' k = map_of sd k"
  using assms
proof (induction ks arbitrary: sd)
  case Nil
  then show ?case by simp
next
  case (Cons k0 ks)
  from for_each_ConsD [OF Cons.prems(1)] obtain sd1 where
    step: "drop_scalar_key gbsn gr partial send recv mw k0 sd = Inr sd1"
    and rest: "for_each (drop_scalar_key gbsn gr partial send recv mw) ks sd1 = Inr sd'"
    by blast
  from drop_scalar_key_cases [OF step] Cons.prems(2)
  have same: "map_of sd1 k = map_of sd k"
    by (auto simp add: delete_conv')
  with Cons.prems(2) have "\<not> (\<exists>t rr. map_of sd1 k = Some t \<and> numel t = 1
                \<and> (if mw then k else fst (gbsn k)) \<in> set partial
                \<and> map_of recv (if mw then k else fst (gbsn k)) = Some rr \<and> gr \<noteq> rr)"
    by simp
  from Cons.IH [OF rest this] same show ?case by simp
qed

lemma for_each_drop_dropped:
  assumes "for_each (drop_scalar_key gbsn gr partial send recv mw) ks sd = Inr sd'"
    and "k \<in> set ks"
    and "map_of sd k = Some t" and "numel t = 1"
    and "(if mw then k else fst (gbsn k)) \<in> set partial"
    and "map_of recv (if mw then k else fst (gbsn k)) = Some rr" and "gr \<noteq> rr"
  shows "map_of sd' k = None"
  using assms(1-3)
proof (induction ks arbitrary: sd)
  case Nil
  then show ?case by simp
next
  case (Cons k0 ks)
  from for_each_ConsD [OF Cons.prems(1)] obtain sd1 where
    step: "drop_scalar_key gbsn gr partial send recv mw k0 sd = Inr sd1"
    and rest: "for_each (drop_scalar_key gbsn gr partial send recv mw) ks sd1 = Inr sd'"
    by blast
  show ?case
  proof (cases "k0 = k")
    case True
    from drop_scalar_key_drops [OF step [unfolded True] Cons.prems(3) assms(4-7)]
    have "map_of sd1 k = None" by (simp add: delete_conv')
    with for_each_drop_kept [OF rest, of k] show ?thesis by simp
  next
    case False
    with drop_scalar_key_cases [OF step] have same: "map_of sd1 k = map_of sd k"
      by (auto simp add: delete_conv')
    from False Cons.prems(2) have "k \<in> set ks" by simp
    from Cons.IH [OF rest this] same Cons.prems(3) show ?thesis by simp
  qed
qed

lemma merge_splited_param_Inr:
  assumes "merge_splited_param gbsn u gr st partial pshape send recv mw ckpt = Inr st'"
  shows "\<exists>st1. for_each (merge_key gbsn u gr partial pshape send recv mw)
                  (map fst (state_dict st)) st = Inr st1
           \<and> (ckpt = ''O0'' \<longrightarrow> st' = st1)
           \<and> (ckpt \<noteq> ''O0'' \<longrightarrow>
                (\<exists>sd'. for_each (drop_scalar_key gbsn gr partial send recv mw)
                          (map fst (state_dict st1)) (state_dict st1) = Inr sd'
                   \<and> st' = st1\<lparr>state_dict := sd'\<rparr>))"
  using assms
  by (auto simp add: merge_splited_param_def split: sum.splits if_splits)

lemma merge_splited_param_at:
  assumes run: "merge_splited_param gbsn u gr st partial pshape send recv mw ckpt = Inr st'"
    and dist: "distinct (map fst (state_dict st))"
    and present: "map_of (state_dict st) key = Some t"
  shows "\<exists>s s' st1.
           merge_key gbsn u gr partial pshape send recv mw key s = Inr s'
         \<and> map_of (state_dict s) key = Some t
         \<and> map_of (state_dict st1) key = map_of (state_dict s') key
         \<and> set (outbox s') \<subseteq> set (outbox st')
         \<and> (ckpt = ''O0'' \<longrightarrow> st' = st1)
         \<and> (ckpt \<noteq> ''O0'' \<longrightarrow>
              (\<exists>sd'. for_each (drop_scalar_key gbsn gr partial send recv mw)
                        (map fst (state_dict st1)) (state_dict st1) = Inr sd'
                 \<and> st' = st1\<lparr>state_dict := sd'\<rparr>))"
proof -
  from merge_splited_param_Inr [OF run] obtain st1 where
    loop: "for_each (merge_key gbsn u gr partial pshape send recv mw)
             (map fst (state_dict st)) st = Inr st1"
    and o0: "ckpt = ''O0'' \<longrightarrow> st' = st1"
    and post: "ckpt \<noteq> ''O0'' \<longrightarrow>
                (\<exists>sd'. for_each (drop_scalar_key gbsn gr partial send recv mw)
                          (map fst (state_dict st1)) (state_dict st1) = Inr sd'
                   \<and> st' = st1\<lparr>state_dict := sd'\<rparr>)" by blast
  from present have "key \<in> set (map fst (state_dict st))"
    by (auto dest: map_of_SomeD intro: rev_image_eqI)
  from for_each_merge_key_at [OF loop dist this] present obtain s s' where
    s: "merge_key gbsn u gr partial pshape send recv mw key s = Inr s'"
      "map_of (state_dict s) key = Some t"
      "map_of (state_dict st1) key = map_of (state_dict s') key"
      "set (outbox s') \<subseteq> set (outbox st1)" by auto
  from o0 post have "outbox st' = outbox st1" by (cases "ckpt = ''O0''") auto
  with s o0 post show ?thesis by auto
qed

lemma merge_splited_param_post_kept:
  assumes "ckpt = ''O0'' \<longrightarrow> st' = st1"
    and "ckpt \<noteq> ''O0'' \<longrightarrow>
              (\<exists>sd'. for_each (drop_scalar_key gbsn gr partial send recv mw)
                        (map fst (state_dict st1)) (state_dict st1) = Inr sd'
                 \<and> st' = st1\<lparr>state_dict := sd'\<rparr>)"
    and "\<not> (\<exists>t rr. map_of (state_dict st1) k = Some t \<and> numel t = 1
                \<and> (if mw then k else fst (gbsn k)) \<in> set partial
                \<and> map_of recv (if mw then k else fst (gbsn k)) = Some rr \<and> gr \<noteq> rr)"
  shows "map_of (state_dict st') k = map_of (state_dict st1) k"
proof (cases "ckpt = ''O0''")
  case True
  with assms(1) show ?thesis by simp
next
  case False
  with assms(2) obtain sd' where
    "for_each (drop_scalar_key gbsn gr partial send recv mw)
       (map fst (state_dict st1)) (state_dict st1) = Inr sd'" "st' = st1\<lparr>state_dict := sd'\<rparr>"
    by blast
  with for_each_drop_kept [OF this(1) assms(3)] show ?thesis by simp
qed


text \<open>
  C5. An entry with exactly one element is skipped by the first loop: its turn changes
  neither the dictionary nor the mailboxes. When \<open>merge_splited_param\<close> returns with
  \<open>ckpt_quant_stage\<close> other than \<open>"O0"\<close>, such an entry whose static name is in
  \<open>partial_tensor_list\<close> is absent on a rank other than the parameter's \<open>recv_rank\<close> and
  still present, unchanged, on \<open>recv_rank\<close>; with \<open>"O0"\<close>, or a static name that is not
  partial, it is present and unchanged on every rank.
\<close>

theorem C5_scalar_entries:
  assumes run: "merge_splited_param gbsn uninit global_rank st partial_tensor_list
                  param_shape_info send_table recv_table is_master_weights ckpt_quant_stage
                = Inr st'"
    and dist: "distinct (map fst (state_dict st))"
    and present: "map_of (state_dict st) key = Some t"
    and one: "numel t = 1"
    and name: "static_name = (if is_master_weights then key else fst (gbsn key))"
  shows "(\<forall>s. map_of (state_dict s) key = Some t \<longrightarrow>
            merge_key gbsn uninit global_rank partial_tensor_list param_shape_info send_table
              recv_table is_master_weights key s = Inr s)
       \<and> (ckpt_quant_stage \<noteq> ''O0'' \<and> static_name \<in> set partial_tensor_list
            \<and> map_of recv_table static_name = Some recv_rank \<and> global_rank \<noteq> recv_rank
          \<longrightarrow> map_of (state_dict st') key = None)
       \<and> (ckpt_quant_stage \<noteq> ''O0'' \<and> static_name \<in> set partial_tensor_list
            \<and> map_of recv_table static_name = Some global_rank
          \<longrightarrow> map_of (state_dict st') key = Some t)
       \<and> (ckpt_quant_stage = ''O0'' \<or> static_name \<notin> set partial_tensor_list
          \<longrightarrow> map_of (state_dict st') key = Some t)"
proof -
  from merge_splited_param_at [OF run dist present] obtain s s' st1 where
    step: "merge_key gbsn uninit global_rank partial_tensor_list param_shape_info send_table
             recv_table is_master_weights key s = Inr s'"
    and s: "map_of (state_dict s) key = Some t"
    and st1: "map_of (state_dict st1) key = map_of (state_dict s') key"
    and o0: "ckpt_quant_stage = ''O0'' \<longrightarrow> st' = st1"
    and post: "ckpt_quant_stage \<noteq> ''O0'' \<longrightarrow>
              (\<exists>sd'. for_each (drop_scalar_key gbsn global_rank partial_tensor_list send_table
                                 recv_table is_master_weights)
                        (map fst (state_dict st1)) (state_dict st1) = Inr sd'
                 \<and> st' = st1\<lparr>state_dict := sd'\<rparr>)" by blast
  from merge_key_scalar [OF s one] step have "s' = s" by simp
  with st1 s have after: "map_of (state_dict st1) key = Some t" by simp
  note kept = merge_splited_param_post_kept [OF o0 post, of key]
  have skipped: "\<forall>s. map_of (state_dict s) key = Some t \<longrightarrow>
            merge_key gbsn uninit global_rank partial_tensor_list param_shape_info send_table
              recv_table is_master_weights key s = Inr s"
    using one by (simp add: merge_key_scalar)
  have dropped: "map_of (state_dict st') key = None"
    if "ckpt_quant_stage \<noteq> ''O0''" and part: "static_name \<in> set partial_tensor_list"
      and rr: "map_of recv_table static_name = Some recv_rank" and ne: "global_rank \<noteq> recv_rank"
  proof -
    from post that(1) obtain sd' where
      loop: "for_each (drop_scalar_key gbsn global_rank partial_tensor_list send_table
                         recv_table is_master_weights)
               (map fst (state_dict st1)) (state_dict st1) = Inr sd'"
      and st': "st' = st1\<lparr>state_dict := sd'\<rparr>" by blast
    from after have mem: "key \<in> set (map fst (state_dict st1))"
      by (auto dest: map_of_SomeD intro: rev_image_eqI)
    from for_each_drop_dropped [OF loop mem after one part [unfolded name] rr [unfolded name] ne]
      st' show ?thesis by simp
  qed
  have owner: "map_of (state_dict st') key = Some t"
    if "map_of recv_table static_name = Some global_rank"
  proof -
    from that name have "map_of (state_dict st') key = map_of (state_dict st1) key"
      by (intro kept) auto
    with after show ?thesis by simp
  qed
  have other: "map_of (state_dict st') key = Some t"
    if "ckpt_quant_stage = ''O0'' \<or> static_name \<notin> set partial_tensor_list"
  proof -
    from that have "map_of (state_dict st') key = map_of (state_dict st1) key"
    proof
      assume "ckpt_quant_stage = ''O0''" with o0 show ?thesis by simp
    next
      assume "static_name \<notin> set partial_tensor_list"
      with name show ?thesis by (intro kept) auto
    qed
    with after show ?thesis by simp
  qed
  from skipped dropped owner other show ?thesis by blast
qed


text \<open>
  The same rank 1 with \<open>ckpt_quant_stage = "O1"\<close>: the scalar of the partial parameter
  is removed too.
\<close>

theorem C5_scalar_entries_witness:
  "merge_splited_param (\<lambda>k. (''w'', [])) (0::int) 1
     \<lparr>state_dict = [(''w_moment1_0'', \<lparr>tdata = [7, 8, 9, 10, 0, 0], tshape = [6],
                                         tdtype = Float32, tname = []\<rparr>),
                     (''w_beta1_pow_acc_0'', \<lparr>tdata = [5], tshape = [1], tdtype = Float32,
                                               tname = []\<rparr>)],
      inbox = [], outbox = []\<rparr>
     [''w''] [(''w'', ([2, 5], 10, 0, 12))] [(''w'', [(0, 0, 6), (1, 6, 12)])] [(''w'', 0)]
     False ''O1''
   = Inr \<lparr>state_dict = [], inbox = [], outbox = [(0, [7, 8, 9, 10])]\<rparr>
   \<and> map_of ([] :: int state_dict) ''w_beta1_pow_acc_0'' = None"
proof -
  let ?t = "\<lparr>tdata = [7, 8, 9, 10, 0, 0::int], tshape = [6], tdtype = Float32, tname = []\<rparr>"
  let ?b = "\<lparr>tdata = [5::int], tshape = [1], tdtype = Float32, tname = []\<rparr>"
  let ?st = "\<lparr>state_dict = [(''w_moment1_0'', ?t), (''w_beta1_pow_acc_0'', ?b)],
              inbox = [], outbox = []\<rparr>"
  let ?st' = "\<lparr>state_dict = [], inbox = [], outbox = [(0::nat, [7, 8, 9, 10::int])]\<rparr>"
  let ?g = "\<lambda>k::string. (''w'', [])"
  have run: "merge_splited_param ?g (0::int) 1 ?st [''w''] [(''w'', ([2, 5], 10, 0, 12))]
               [(''w'', [(0, 0, 6), (1, 6, 12)])] [(''w'', 0)] False ''O1'' = Inr ?st'"
    by (simp add: merge_splited_param_def merge_key_def send_fragment_def local_fragment_def
        slice_rows_def slice_bound_def numel_def drop_scalar_key_def)
  have dist: "distinct (map fst (state_dict ?st))" by simp
  have present: "map_of (state_dict ?st) ''w_beta1_pow_acc_0'' = Some ?b" by simp
  have one: "numel ?b = 1" by (simp add: numel_def)
  have name: "''w'' = (if False then ''w_beta1_pow_acc_0'' else fst (?g ''w_beta1_pow_acc_0''))"
    by simp
  show ?thesis
    using run C5_scalar_entries [OF run dist present one name, of 0]
    by simp
qed


subsection \<open>The split of a merged buffer\<close>

lemma split_real_part:
  assumes len: "int (length xs) = n" and b: "idx \<le> pbegin" "pbegin \<le> pend"
  shows "drop (slice_bound n (pbegin - idx)) (take (slice_bound n (pend - idx)) xs)
           = drop (nat (pbegin - idx)) (take (nat (pend - idx)) xs)"
    and "int (length (drop (nat (pbegin - idx)) (take (nat (pend - idx)) xs)))
           = max 0 (min pend (idx + n) - pbegin)"
proof -
  from b have nn: "\<not> pbegin - idx < 0" "\<not> pend - idx < 0" by auto
  have l: "length xs = nat n" using len by auto
  have t: "take (nat (min (pend - idx) n)) xs = take (nat (pend - idx)) xs"
    using l by (cases "pend - idx \<le> n") (simp_all add: min_def)
  have d: "drop (nat (min (pbegin - idx) n)) (take (nat (pend - idx)) xs)
             = drop (nat (pbegin - idx)) (take (nat (pend - idx)) xs)"
    using l b by (cases "pbegin - idx \<le> n") (auto simp add: min_def)
  show "drop (slice_bound n (pbegin - idx)) (take (slice_bound n (pend - idx)) xs)
           = drop (nat (pbegin - idx)) (take (nat (pend - idx)) xs)"
    using nn by (simp add: slice_bound_def t d)
  show "int (length (drop (nat (pbegin - idx)) (take (nat (pend - idx)) xs)))
           = max 0 (min pend (idx + n) - pbegin)"
    using l b len by (auto simp add: min_def max_def)
qed

lemma slice_rows_flat:
  assumes "numel t = n" and "idx \<le> pbegin" "pbegin \<le> pend"
  shows "slice_rows (flatten t) (pbegin - idx) (pend - idx)
           = Inr (t\<lparr>tdata := drop (nat (pbegin - idx)) (take (nat (pend - idx)) (tdata t)),
                     tshape := [max 0 (min pend (idx + n) - pbegin)]\<rparr>)"
proof -
  have len: "int (length (tdata t)) = n" using assms(1) by (simp add: numel_def)
  note rp = split_real_part [OF len assms(2,3)]
  have n0: "0 \<le> n" using len by linarith
  have "int (slice_bound n (pend - idx) - slice_bound n (pbegin - idx))
          = max 0 (min pend (idx + n) - pbegin)"
    using assms(2,3) n0 by (auto simp add: slice_bound_def min_def max_def)
  then show ?thesis
    using rp(1) assms(1) by (simp add: slice_rows_def flatten_def Let_def)
qed

lemma reshape_params_key_result:
  fixes t :: "('a::zero) tensor"
  assumes present: "map_of sd key = Some t" and multi: "numel t > 1"
    and s2s: "map_of s2s (takeWhile (\<lambda>c. c \<noteq> CHR ''/'') key) = Some sn"
    and slice: "map_of psi sn = Some (pbegin, pend)"
    and info: "map_of pshape sn = Some (shape, n, idx, padded)"
    and flat: "numel t = n"
    and inv: "idx \<le> pbegin" "pbegin \<le> pend" "pend \<le> idx + padded"
  shows "reshape_params_key s2s pshape psi key sd
           = Inr (AList.update key
                    (t\<lparr>tdata := drop (nat (pbegin - idx)) (take (nat (pend - idx)) (tdata t))
                               @ replicate (nat (min pend (idx + padded) - max pbegin (idx + n))) 0,
                       tshape := [pend - pbegin]\<rparr>) sd)"
proof -
  define ps where "ps = max pbegin (idx + n)"
  define pe where "pe = min pend (idx + padded)"
  define r where "r = max 0 (min pend (idx + n) - pbegin)"
  define real where "real = drop (nat (pbegin - idx)) (take (nat (pend - idx)) (tdata t))"
  have sl: "slice_rows (flatten t) (pbegin - idx) (pend - idx)
              = Inr (t\<lparr>tdata := real, tshape := [r]\<rparr>)"
    unfolding r_def real_def by (rule slice_rows_flat [OF flat inv(1,2)])
  have unfold: "reshape_params_key s2s pshape psi key sd
      = (if ps < pe then
           (case concat0 [t\<lparr>tdata := real, tshape := [r]\<rparr>, zeros (pe - ps) (tdtype t)] of
              Inl err \<Rightarrow> Inl err
            | Inr t3 \<Rightarrow> Inr (AList.update key t3 sd))
         else Inr (AList.update key (t\<lparr>tdata := real, tshape := [r]\<rparr>) sd))"
    using present multi s2s slice info
    by (simp add: reshape_params_key_def Let_def sl ps_def pe_def)
  show ?thesis
  proof (cases "ps < pe")
    case True
    then have sz: "r + (pe - ps) = pend - pbegin"
      using inv by (auto simp add: min_def max_def ps_def pe_def r_def)
    have "concat0 [t\<lparr>tdata := real, tshape := [r]\<rparr>, zeros (pe - ps) (tdtype t)]
            = Inr (t\<lparr>tdata := real @ replicate (nat (pe - ps)) 0, tshape := [r + (pe - ps)]\<rparr>)"
      by (simp add: concat0_def zeros_def)
    with True unfold sz show ?thesis
      by (simp add: ps_def [symmetric] pe_def [symmetric] real_def [symmetric])
  next
    case False
    then have sz: "r = pend - pbegin" and z: "nat (pe - ps) = 0"
      using inv by (auto simp add: min_def max_def ps_def pe_def r_def split: if_splits)
    with False unfold show ?thesis
      by (simp add: ps_def [symmetric] pe_def [symmetric] real_def [symmetric])
  qed
qed

lemma reshape_params_key_frame:
  fixes sd :: "('a::zero) state_dict"
  assumes "reshape_params_key s2s pshape psi k0 sd = Inr sd'" and "k \<noteq> k0"
  shows "map_of sd' k = map_of sd k"
  using assms
  by (auto simp add: reshape_params_key_def Let_def update_conv'
      split: option.splits if_splits sum.splits prod.splits)

lemma for_each_reshape_outside:
  fixes sd :: "('a::zero) state_dict"
  assumes "for_each (reshape_params_key s2s pshape psi) ks sd = Inr sd'" and "k \<notin> set ks"
  shows "map_of sd' k = map_of sd k"
  using assms
proof (induction ks arbitrary: sd)
  case Nil
  then show ?case by simp
next
  case (Cons k0 ks)
  from for_each_ConsD [OF Cons.prems(1)] obtain sd1 where
    step: "reshape_params_key s2s pshape psi k0 sd = Inr sd1"
    and rest: "for_each (reshape_params_key s2s pshape psi) ks sd1 = Inr sd'" by blast
  from Cons.prems(2) have "k \<noteq> k0" "k \<notin> set ks" by auto
  from Cons.IH [OF rest this(2)] reshape_params_key_frame [OF step this(1)] show ?case by simp
qed

lemma for_each_reshape_at:
  fixes sd :: "('a::zero) state_dict"
  assumes "for_each (reshape_params_key s2s pshape psi) ks sd = Inr sd'"
    and "distinct ks" and "k \<in> set ks"
  shows "\<exists>s s'. reshape_params_key s2s pshape psi k s = Inr s'
           \<and> map_of s k = map_of sd k \<and> map_of sd' k = map_of s' k"
  using assms
proof (induction ks arbitrary: sd)
  case Nil
  then show ?case by simp
next
  case (Cons k0 ks)
  from for_each_ConsD [OF Cons.prems(1)] obtain sd1 where
    step: "reshape_params_key s2s pshape psi k0 sd = Inr sd1"
    and rest: "for_each (reshape_params_key s2s pshape psi) ks sd1 = Inr sd'" by blast
  show ?case
  proof (cases "k = k0")
    case True
    with Cons.prems(2) have "k \<notin> set ks" by simp
    from for_each_reshape_outside [OF rest this] step True show ?thesis by blast
  next
    case False
    with Cons.prems have "distinct ks" "k \<in> set ks" by simp_all
    from Cons.IH [OF rest this] obtain s s' where
      "reshape_params_key s2s pshape psi k s = Inr s'"
      "map_of s k = map_of sd1 k" "map_of sd' k = map_of s' k" by blast
    with reshape_params_key_frame [OF step False] show ?thesis by auto
  qed
qed

lemma nth_append_replicate:
  "length xs \<le> i \<Longrightarrow> i < length (xs @ replicate k z) \<Longrightarrow> (xs @ replicate k z) ! i = z"
  by (simp add: nth_append)

text \<open>
  C6. For an entry with more than one element whose buffer flattens to exactly \<open>numel\<close>
  elements, and a local slice inside the padded block of the parameter
  (\<open>index \<le> begin \<le> end \<le> index + padded_size\<close>): when \<open>reshape_params\<close> returns, the
  entry is a 1-D tensor of exactly \<open>end - begin\<close> elements, of the same element type: the
  slice \<open>[begin - index, end - index)\<close> of the flattened buffer, which has
  \<open>max(0, min(end, index + numel) - begin)\<close> elements, followed by
  \<open>min(end, index + padded_size) - max(begin, index + numel)\<close> zeros when that number is
  positive and by nothing otherwise. So everything after the real data is zero.
\<close>

theorem C6_reshape_params_slice:
  fixes t :: "('a::zero) tensor"
  assumes run: "reshape_params sd struct2static_name_mappings param_shape_info param_slice_info
                  = Inr sd'"
    and dist: "distinct (map fst sd)"
    and present: "map_of sd key = Some t" and multi: "numel t > 1"
    and s2s: "map_of struct2static_name_mappings (takeWhile (\<lambda>c. c \<noteq> CHR ''/'') key)
                = Some static_name"
    and slice: "map_of param_slice_info static_name = Some (pbegin, pend)"
    and info: "map_of param_shape_info static_name = Some (shape, n, idx, padded)"
    and flat: "numel t = n"
    and inv: "idx \<le> pbegin" "pbegin \<le> pend" "pend \<le> idx + padded"
  shows "\<exists>t'. map_of sd' key = Some t'
           \<and> tshape t' = [pend - pbegin] \<and> numel t' = pend - pbegin \<and> tdtype t' = tdtype t
           \<and> tdata t' = drop (nat (pbegin - idx)) (take (nat (pend - idx)) (tdata t))
                         @ replicate (nat (min pend (idx + padded) - max pbegin (idx + n))) 0
           \<and> int (length (drop (nat (pbegin - idx)) (take (nat (pend - idx)) (tdata t))))
               = max 0 (min pend (idx + n) - pbegin)
           \<and> (\<forall>i. nat (max 0 (min pend (idx + n) - pbegin)) \<le> i \<and> i < length (tdata t')
                  \<longrightarrow> tdata t' ! i = 0)"
proof -
  let ?real = "drop (nat (pbegin - idx)) (take (nat (pend - idx)) (tdata t))"
  let ?pad = "replicate (nat (min pend (idx + padded) - max pbegin (idx + n))) (0::'a)"
  let ?t' = "t\<lparr>tdata := ?real @ ?pad, tshape := [pend - pbegin]\<rparr>"
  from present have "key \<in> set (map fst sd)"
    by (auto dest: map_of_SomeD intro: rev_image_eqI)
  from for_each_reshape_at [OF run [unfolded reshape_params_def] dist this] present
  obtain s s' where
    step: "reshape_params_key struct2static_name_mappings param_shape_info param_slice_info key s
             = Inr s'"
    and s: "map_of s key = Some t" and s': "map_of sd' key = map_of s' key" by auto
  from reshape_params_key_result [OF s multi s2s slice info flat inv] step
  have "s' = AList.update key ?t' s" by simp
  with s' have entry: "map_of sd' key = Some ?t'" by (simp add: update_conv')
  have len: "int (length (tdata t)) = n" using flat by (simp add: numel_def)
  note rp = split_real_part(2) [OF len inv(1,2)]
  have total: "int (length (?real @ ?pad)) = pend - pbegin"
  proof -
    have a: "int (length ?pad) = max 0 (min pend (idx + padded) - max pbegin (idx + n))"
      by (simp add: max_def)
    have "int (length (?real @ ?pad)) = int (length ?real) + int (length ?pad)"
      by (simp only: length_append of_nat_add)
    also have "\<dots> = max 0 (min pend (idx + n) - pbegin)
              + max 0 (min pend (idx + padded) - max pbegin (idx + n))"
      by (simp only: rp a)
    also have "\<dots> = pend - pbegin"
      using inv by (cases "pend \<le> idx + n"; cases "pbegin \<le> idx + n")
        (simp_all add: min_def max_def)
    finally show ?thesis .
  qed
  have zeros: "(?real @ ?pad) ! i = 0"
    if "nat (max 0 (min pend (idx + n) - pbegin)) \<le> i" "i < length (?real @ ?pad)" for i
  proof -
    from rp have "length ?real = nat (max 0 (min pend (idx + n) - pbegin))" by linarith
    with that(1) have "length ?real \<le> i" by (simp only:)
    from nth_append_replicate [OF this that(2)] show ?thesis .
  qed
  have data: "tdata ?t' = ?real @ ?pad" and shape: "tshape ?t' = [pend - pbegin]"
    and dt: "tdtype ?t' = tdtype t" by simp_all
  have count: "numel ?t' = pend - pbegin"
    unfolding numel_def data by (rule total)
  have tail: "\<forall>i. nat (max 0 (min pend (idx + n) - pbegin)) \<le> i \<and> i < length (tdata ?t')
                \<longrightarrow> tdata ?t' ! i = 0"
    unfolding data using zeros by blast
  from entry shape count dt data rp tail show ?thesis by blast
qed

text \<open>
  The merged buffer of 10 elements, split for the rank that holds \<open>[6, 12)\<close> of the
  block padded to 12: 4 elements of data and 2 zeros.
\<close>

theorem C6_reshape_params_slice_witness:
  "reshape_params
     [(''w/moment1_0'', \<lparr>tdata = [1, 2, 3, 4, 5, 6, 7, 8, 9, 10::int], tshape = [2, 5],
                          tdtype = Float32, tname = []\<rparr>)]
     [(''w'', ''linear_0.w_0'')] [(''linear_0.w_0'', ([2, 5], 10, 0, 12))]
     [(''linear_0.w_0'', (6, 12))]
   = Inr [(''w/moment1_0'', \<lparr>tdata = [7, 8, 9, 10, 0, 0], tshape = [6], tdtype = Float32,
                              tname = []\<rparr>)]
   \<and> drop (nat (6 - 0)) (take (nat (12 - 0)) [1, 2, 3, 4, 5, 6, 7, 8, 9, 10::int])
       @ replicate (nat (min 12 (0 + 12) - max 6 (0 + 10))) 0
     = [7, 8, 9, 10, 0, 0]"
proof -
  let ?t = "\<lparr>tdata = [1, 2, 3, 4, 5, 6, 7, 8, 9, 10::int], tshape = [2, 5],
              tdtype = Float32, tname = []\<rparr>"
  let ?sd = "[(''w/moment1_0'', ?t)]"
  let ?sd' = "[(''w/moment1_0'', \<lparr>tdata = [7, 8, 9, 10, 0, 0::int], tshape = [6],
                                    tdtype = Float32, tname = []\<rparr>)]"
  have run: "reshape_params ?sd [(''w'', ''linear_0.w_0'')]
               [(''linear_0.w_0'', ([2, 5], 10, 0, 12))] [(''linear_0.w_0'', (6, 12))]
             = Inr ?sd'"
    by (simp add: reshape_params_def reshape_params_key_def numel_def flatten_def
        slice_rows_def slice_bound_def concat0_def zeros_def numeral_eq_Suc)
  have dist: "distinct (map fst ?sd)" by simp
  have present: "map_of ?sd ''w/moment1_0'' = Some ?t" by simp
  have multi: "numel ?t > 1" by (simp add: numel_def)
  have s2s: "map_of [(''w'', ''linear_0.w_0'')] (takeWhile (\<lambda>c. c \<noteq> CHR ''/'') ''w/moment1_0'')
               = Some ''linear_0.w_0''" by simp
  have slice: "map_of [(''linear_0.w_0'', (6::int, 12::int))] ''linear_0.w_0'' = Some (6, 12)"
    by simp
  have info: "map_of [(''linear_0.w_0'', ([2, 5], 10, 0, 12))] ''linear_0.w_0''
                = Some ([2::int, 5], 10::int, 0::int, 12::int)" by simp
  have flat: "numel ?t = 10" by (simp add: numel_def)
  have inv: "(0::int) \<le> 6" "(6::int) \<le> 12" "(12::int) \<le> 0 + 12" by simp_all
  have data: "drop (nat (6 - 0)) (take (nat (12 - 0)) [1, 2, 3, 4, 5, 6, 7, 8, 9, 10::int])
       @ replicate (nat (min 12 (0 + 12) - max 6 (0 + 10))) 0
     = [7, 8, 9, 10, 0, 0]" by (simp add: numeral_eq_Suc)
  show ?thesis
    using run data
      C6_reshape_params_slice [OF run dist present multi s2s slice info flat inv]
    by blast
qed


subsection \<open>Merge, then split\<close>


















subsection \<open>The fallback scan\<close>

lemma map_of_pull_keys:
  "map_of (pull_keys ks file sd) k =
     (if k \<in> set ks \<and> map_of file k \<noteq> None then map_of file k else map_of sd k)"
  unfolding pull_keys_def
proof (induction ks arbitrary: sd)
  case Nil
  then show ?case by simp
next
  case (Cons k0 ks)
  show ?case
    by (cases "map_of file k0") (auto simp add: Cons.IH update_conv')
qed

lemma pulled_from_Nil: "pulled_from dir [] ks sd sd"
  by (simp add: pulled_from_def)

lemma pulled_from_Cons:
  assumes f0: "map_of dir f0 = Some (Some file0)"
    and rest: "pulled_from dir fs ks (pull_keys ks file0 sd) sd'"
  shows "pulled_from dir (f0 # fs) ks sd sd'"
  unfolding pulled_from_def
proof
  fix k
  let ?later = "k \<in> set ks \<and> (\<exists>f \<in> set fs. \<exists>file. map_of dir f = Some (Some file)
                                        \<and> map_of file k \<noteq> None)"
  let ?first = "k \<in> set ks \<and> map_of file0 k \<noteq> None"
  let ?any = "k \<in> set ks \<and> (\<exists>f \<in> set (f0 # fs). \<exists>file. map_of dir f = Some (Some file)
                                        \<and> map_of file k \<noteq> None)"
  let ?got = "\<lambda>l. \<exists>f \<in> set l. \<exists>file t. map_of dir f = Some (Some file)
                    \<and> map_of file k = Some t \<and> map_of sd' k = Some t"
  from rest have r: "if ?later then ?got fs else map_of sd' k = map_of (pull_keys ks file0 sd) k"
    unfolding pulled_from_def by (rule allE)
  have any: "?any \<longleftrightarrow> ?first \<or> ?later" using f0 by auto
  show "if ?any then ?got (f0 # fs) else map_of sd' k = map_of sd k"
  proof (cases ?later)
    case True
    with r have "?got fs" by simp
    then have "?got (f0 # fs)" by auto
    with True any show ?thesis by simp
  next
    case False
    with r have eq: "map_of sd' k = map_of (pull_keys ks file0 sd) k" by simp
    show ?thesis
    proof (cases ?first)
      case True
      then obtain t where t: "map_of file0 k = Some t" by auto
      with True eq have "map_of sd' k = Some t" by (simp add: map_of_pull_keys)
      with t f0 have "?got (f0 # fs)" by auto
      with True any show ?thesis by simp
    next
      case nf: False
      have "map_of (pull_keys ks file0 sd) k = map_of sd k"
        using nf by (simp only: map_of_pull_keys if_False)
      with eq have same: "map_of sd' k = map_of sd k" by simp
      from any False nf have na: "\<not> ?any" by blast
      show ?thesis by (simp only: if_not_P [OF na] same)
    qed
  qed
qed

lemma scan_files:
  assumes "\<forall>f \<in> set fs. \<exists>file. map_of dir f = Some (Some file)"
  shows "\<exists>sd'. for_each (scan_file dir ks) fs sd = Inr sd' \<and> pulled_from dir fs ks sd sd'"
  using assms
proof (induction fs arbitrary: sd)
  case Nil
  then show ?case by (simp add: pulled_from_Nil)
next
  case (Cons f0 fs)
  from Cons.prems obtain file0 where f0: "map_of dir f0 = Some (Some file0)" by auto
  from Cons.prems have "\<forall>f \<in> set fs. \<exists>file. map_of dir f = Some (Some file)" by simp
  from Cons.IH [OF this, of "pull_keys ks file0 sd"] obtain sd' where
    run: "for_each (scan_file dir ks) fs (pull_keys ks file0 sd) = Inr sd'"
    and pf: "pulled_from dir fs ks (pull_keys ks file0 sd) sd'" by blast
  have "for_each (scan_file dir ks) (f0 # fs) sd = Inr sd'"
    using f0 run by (simp add: scan_file_def)
  with pulled_from_Cons [OF f0 pf] show ?case by blast
qed

lemma get_unfound_params_scan:
  assumes "\<forall>f \<in> set (backup_files (if is_optimizer then on else mn)
                        (if is_optimizer then ''optimizer'' else ''master_weights'') (map fst dir)).
             \<exists>file. map_of dir f = Some (Some file)"
  shows "\<exists>sd'. get_unfound_params dir on mn ks sd is_optimizer = Inr sd'
           \<and> pulled_from dir
               (backup_files (if is_optimizer then on else mn)
                  (if is_optimizer then ''optimizer'' else ''master_weights'') (map fst dir))
               ks sd sd'"
proof (cases "ks = []")
  case True
  then show ?thesis by (simp add: get_unfound_params_def pulled_from_def)
next
  case False
  with scan_files [OF assms, of ks sd] show ?thesis
    by (simp add: get_unfound_params_def Let_def)
qed

text \<open>
  C8, as the code has it. The keys of the optimizer state that are expected and not
  loaded are searched in the files of the checkpoint directory whose name starts with
  \<open>optimizer\<close>, ends with \<open>safetensors\<close>, is not the primary file's and equals the
  primary file's once the shard tokens are stripped from both. When these files can be
  read, the scan returns: a missing key that one of them holds is added with a tensor
  that one of them holds under it, and every other key, one found in none of them
  included, is left as it was (absent if it was absent), with no error. The master
  weights are scanned the same way, in the files that start with \<open>master_weights\<close>, but
  only when the primary load gave at least one master weight.
\<close>

theorem C8_fallback_scan:
  assumes readable: "\<forall>f \<in> set (backup_files optimizer_name ''optimizer'' (map fst dir)).
                       \<exists>file. map_of dir f = Some (Some file)"
    and readable_mw: "\<forall>f \<in> set (backup_files master_weights_name ''master_weights''
                                    (map fst dir)).
                       \<exists>file. map_of dir f = Some (Some file)"
  shows "(\<exists>sd'. load_fallback dir optimizer_name master_weights_name expected_keys_optim
                  optimizer_state_dict = Inr sd'
            \<and> pulled_from dir (backup_files optimizer_name ''optimizer'' (map fst dir))
                (unfound expected_keys_optim optimizer_state_dict) optimizer_state_dict sd')
       \<and> (\<exists>mw'. load_fallback_master_weights dir optimizer_name master_weights_name
                  expected_keys master_weights = Inr mw'
            \<and> (if master_weights = [] then mw' = []
                else pulled_from dir
                       (backup_files master_weights_name ''master_weights'' (map fst dir))
                       (unfound expected_keys master_weights) master_weights mw'))
       \<and> (\<forall>f name name_prefix.
             f \<in> set (backup_files name name_prefix (map fst dir)) \<longleftrightarrow>
               f \<in> fst ` set dir \<and> startswith f name_prefix \<and> endswith f ''safetensors''
               \<and> f \<noteq> name \<and> strip_shard f = strip_shard name)
       \<and> (\<forall>k expected sd. k \<in> set (unfound expected (sd :: 'a state_dict)) \<longleftrightarrow>
             k \<in> set expected \<and> k \<notin> fst ` set sd)"
proof -
  have r1: "\<forall>f \<in> set (backup_files (if True then optimizer_name else master_weights_name)
                        (if True then ''optimizer'' else ''master_weights'') (map fst dir)).
             \<exists>file. map_of dir f = Some (Some file)"
    using readable by (simp only: if_True)
  have r2: "\<forall>f \<in> set (backup_files (if False then optimizer_name else master_weights_name)
                        (if False then ''optimizer'' else ''master_weights'') (map fst dir)).
             \<exists>file. map_of dir f = Some (Some file)"
    using readable_mw by (simp only: if_False)
  have opt: "\<exists>sd'. load_fallback dir optimizer_name master_weights_name expected_keys_optim
                  optimizer_state_dict = Inr sd'
            \<and> pulled_from dir (backup_files optimizer_name ''optimizer'' (map fst dir))
                (unfound expected_keys_optim optimizer_state_dict) optimizer_state_dict sd'"
    using get_unfound_params_scan [OF r1, of "unfound expected_keys_optim optimizer_state_dict"
        optimizer_state_dict]
    by (simp only: load_fallback_def if_True)
  have mw: "\<exists>mw'. load_fallback_master_weights dir optimizer_name master_weights_name
                  expected_keys master_weights = Inr mw'
            \<and> (if master_weights = [] then mw' = []
                else pulled_from dir
                       (backup_files master_weights_name ''master_weights'' (map fst dir))
                       (unfound expected_keys master_weights) master_weights mw')"
  proof (cases "master_weights = []")
    case True
    then show ?thesis by (simp add: load_fallback_master_weights_def)
  next
    case False
    from get_unfound_params_scan [OF r2, of "unfound expected_keys master_weights" master_weights]
    obtain mw' where "get_unfound_params dir optimizer_name master_weights_name
                        (unfound expected_keys master_weights) master_weights False = Inr mw'"
      "pulled_from dir (backup_files master_weights_name ''master_weights'' (map fst dir))
         (unfound expected_keys master_weights) master_weights mw'"
      by (simp only: if_False) blast
    with False show ?thesis by (simp add: load_fallback_master_weights_def)
  qed
  have files: "\<forall>f name name_prefix.
             f \<in> set (backup_files name name_prefix (map fst dir)) \<longleftrightarrow>
               f \<in> fst ` set dir \<and> startswith f name_prefix \<and> endswith f ''safetensors''
               \<and> f \<noteq> name \<and> strip_shard f = strip_shard name"
    by (auto simp add: backup_files_def)
  have ks: "\<forall>k expected sd. k \<in> set (unfound expected (sd :: 'a state_dict)) \<longleftrightarrow>
             k \<in> set expected \<and> k \<notin> fst ` set sd"
    by (simp add: unfound_def)
  from opt mw files ks show ?thesis by (intro conjI)
qed

text \<open>
  A directory with the primary shard, one sibling shard and an index file: the key the
  sibling holds is pulled, the key nobody holds stays absent.
\<close>

theorem C8_fallback_scan_witness:
  "load_fallback
     [(''optimizer-tp00_shard00.safetensors'', Some []),
      (''optimizer-tp00_shard01.safetensors'',
       Some [(''w/moment1_0'', \<lparr>tdata = [1, 2::int], tshape = [2], tdtype = Float32,
                                 tname = []\<rparr>)]),
      (''optimizer-tp00.safetensors.index.json'', None)]
     ''optimizer-tp00_shard00.safetensors'' ''master_weights-tp00_shard00.safetensors''
     [''w/moment1_0'', ''v/moment1_0''] []
   = Inr [(''w/moment1_0'', \<lparr>tdata = [1, 2], tshape = [2], tdtype = Float32, tname = []\<rparr>)]
   \<and> backup_files ''optimizer-tp00_shard00.safetensors'' ''optimizer''
       [''optimizer-tp00_shard00.safetensors'', ''optimizer-tp00_shard01.safetensors'',
        ''optimizer-tp00.safetensors.index.json'']
     = [''optimizer-tp00_shard01.safetensors'']"
proof -
  let ?dir = "[(''optimizer-tp00_shard00.safetensors'', Some []),
      (''optimizer-tp00_shard01.safetensors'',
       Some [(''w/moment1_0'', \<lparr>tdata = [1, 2::int], tshape = [2], tdtype = Float32,
                                 tname = []\<rparr>)]),
      (''optimizer-tp00.safetensors.index.json'', None)]"
  have files: "backup_files ''optimizer-tp00_shard00.safetensors'' ''optimizer'' (map fst ?dir)
                 = [''optimizer-tp00_shard01.safetensors'']"
    by code_simp
  have files_mw: "backup_files ''master_weights-tp00_shard00.safetensors'' ''master_weights''
                    (map fst ?dir) = []"
    by code_simp
  have readable: "\<forall>f \<in> set (backup_files ''optimizer-tp00_shard00.safetensors'' ''optimizer''
                                 (map fst ?dir)).
                    \<exists>file. map_of ?dir f = Some (Some file)"
    unfolding files by simp
  have readable_mw: "\<forall>f \<in> set (backup_files ''master_weights-tp00_shard00.safetensors''
                                    ''master_weights'' (map fst ?dir)).
                    \<exists>file. map_of ?dir f = Some (Some file)"
    unfolding files_mw by simp
  have run: "load_fallback ?dir ''optimizer-tp00_shard00.safetensors''
               ''master_weights-tp00_shard00.safetensors'' [''w/moment1_0'', ''v/moment1_0''] []
             = Inr [(''w/moment1_0'', \<lparr>tdata = [1, 2], tshape = [2], tdtype = Float32,
                                        tname = []\<rparr>)]"
    by code_simp
  have files': "backup_files ''optimizer-tp00_shard00.safetensors'' ''optimizer''
       [''optimizer-tp00_shard00.safetensors'', ''optimizer-tp00_shard01.safetensors'',
        ''optimizer-tp00.safetensors.index.json'']
     = [''optimizer-tp00_shard01.safetensors'']"
    using files by simp
  show ?thesis
    using run files'
      C8_fallback_scan [OF readable readable_mw, of "[''w/moment1_0'', ''v/moment1_0'']" "[]"
        "[]" "[]"]
    by blast
qed

text \<open>
  The claim as stated fails at a file whose stripped name equals the primary's but
  which does not start with \<open>optimizer\<close>: it is not scanned, and the key it holds
  stays absent. It fails too for the master weights when the primary load gave none:
  the sibling shard that holds the expected key is not scanned.
\<close>

theorem C8_fallback_scan_counterexample:
  "strip_shard ''shard01_optimizer-tp00.safetensors''
     = strip_shard ''optimizer-tp00_shard00.safetensors''
   \<and> ''shard01_optimizer-tp00.safetensors'' \<noteq> ''optimizer-tp00_shard00.safetensors''
   \<and> load_fallback
       [(''optimizer-tp00_shard00.safetensors'', Some []),
        (''shard01_optimizer-tp00.safetensors'',
         Some [(''w/moment1_0'', \<lparr>tdata = [1, 2::int], tshape = [2], tdtype = Float32,
                                   tname = []\<rparr>)])]
       ''optimizer-tp00_shard00.safetensors'' ''master_weights-tp00_shard00.safetensors''
       [''w/moment1_0''] []
     = Inr []
   \<and> strip_shard ''master_weights-tp00_shard01.safetensors''
     = strip_shard ''master_weights-tp00_shard00.safetensors''
   \<and> ''master_weights-tp00_shard01.safetensors'' \<noteq> ''master_weights-tp00_shard00.safetensors''
   \<and> load_fallback_master_weights
       [(''master_weights-tp00_shard00.safetensors'', Some []),
        (''master_weights-tp00_shard01.safetensors'',
         Some [(''w'', \<lparr>tdata = [1, 2::int], tshape = [2], tdtype = Float32, tname = []\<rparr>)])]
       ''optimizer-tp00_shard00.safetensors'' ''master_weights-tp00_shard00.safetensors''
       [''w''] []
     = Inr []"
  by code_simp

subsection \<open>Master weights on the load path\<close>















end
